theory Spec2Isabelle
  imports Complex_Main
begin

section \<open>The layer compositor (LayerManager.js)\<close>

text \<open>
  The constructor's \<open>LAYERS\<close> object has seven own properties, each with a numeric
  value. Its keys are the enumeration \<open>layer\<close>; \<open>LAYERS\<close> gives the value of each key,
  \<open>layer_keys\<close> is \<open>Object.keys(this.LAYERS)\<close> (insertion order), and \<open>hasOwnProperty\<close>
  looks a property name up.
\<close>

datatype layer = BG_FAR | BG_NEAR | VIDEO_IMAGE | SHAPES | SPRITES | TEXT | UI_BUTTONS

fun LAYERS :: "layer \<Rightarrow> nat" where
  "LAYERS BG_FAR = 0"
| "LAYERS BG_NEAR = 1"
| "LAYERS VIDEO_IMAGE = 2"
| "LAYERS SHAPES = 3"
| "LAYERS SPRITES = 4"
| "LAYERS TEXT = 5"
| "LAYERS UI_BUTTONS = 6"

definition layer_keys :: "layer list" where
  "layer_keys = [BG_FAR, BG_NEAR, VIDEO_IMAGE, SHAPES, SPRITES, TEXT, UI_BUTTONS]"

definition hasOwnProperty :: "string \<Rightarrow> layer option" where
  "hasOwnProperty layerName =
     (if layerName = ''BG_FAR'' then Some BG_FAR
      else if layerName = ''BG_NEAR'' then Some BG_NEAR
      else if layerName = ''VIDEO_IMAGE'' then Some VIDEO_IMAGE
      else if layerName = ''SHAPES'' then Some SHAPES
      else if layerName = ''SPRITES'' then Some SPRITES
      else if layerName = ''TEXT'' then Some TEXT
      else if layerName = ''UI_BUTTONS'' then Some UI_BUTTONS
      else None)"

text \<open>
  \<open>layerEntities\<close> is created with exactly the keys of \<open>LAYERS\<close> and no operation adds
  or deletes a key, so it is a function on the enumeration. An entity is a reference
  (\<open>'e\<close>): \<open>includes\<close> and \<open>indexOf\<close> compare references. \<open>warnings\<close> collects what the
  manager passes to \<open>console.warn\<close>.
\<close>

record 'e LayerManager =
  layerEntities :: "layer \<Rightarrow> 'e list"
  warnings :: "string list"

definition new_LayerManager :: "'e LayerManager" where
  "new_LayerManager =
     \<lparr>layerEntities = fold (\<lambda>layer m. m(layer := [])) layer_keys (\<lambda>_. []),
      warnings = []\<rparr>"

definition addToLayer :: "'e \<Rightarrow> string \<Rightarrow> 'e LayerManager \<Rightarrow> 'e LayerManager" where
  "addToLayer entity layerName lm =
     (case hasOwnProperty layerName of
        None \<Rightarrow> lm\<lparr>warnings := warnings lm @ [''Unknown layer: '' @ layerName]\<rparr>
      | Some l \<Rightarrow>
          if entity \<in> set (layerEntities lm l) then lm
          else lm\<lparr>layerEntities := (layerEntities lm)(l := layerEntities lm l @ [entity])\<rparr>)"

definition removeFromLayer :: "'e \<Rightarrow> string \<Rightarrow> 'e LayerManager \<Rightarrow> 'e LayerManager" where
  "removeFromLayer entity layerName lm =
     (case hasOwnProperty layerName of
        None \<Rightarrow> lm
      | Some l \<Rightarrow> lm\<lparr>layerEntities := (layerEntities lm)(l := remove1 entity (layerEntities lm l))\<rparr>)"

definition clearLayer :: "string \<Rightarrow> 'e LayerManager \<Rightarrow> 'e LayerManager" where
  "clearLayer layerName lm =
     (case hasOwnProperty layerName of
        None \<Rightarrow> lm
      | Some l \<Rightarrow> lm\<lparr>layerEntities := (layerEntities lm)(l := [])\<rparr>)"

definition clearAll :: "'e LayerManager \<Rightarrow> 'e LayerManager" where
  "clearAll lm = lm\<lparr>layerEntities := fold (\<lambda>layer m. m(layer := [])) layer_keys (layerEntities lm)\<rparr>"

text \<open>
  \<open>render\<close> sorts the keys by their numeric value and walks each layer's array in
  order. \<open>renderable e\<close> is the test \<open>entity && typeof entity.render === 'function'\<close>; the
  result is the sequence of entities whose \<open>render(ctx)\<close> is called.
\<close>

definition sortedLayers :: "layer list" where
  "sortedLayers = sort_key LAYERS layer_keys"

definition render :: "('e \<Rightarrow> bool) \<Rightarrow> 'e LayerManager \<Rightarrow> 'e list" where
  "render renderable lm =
     concat (map (\<lambda>layerName. filter renderable (layerEntities lm layerName)) sortedLayers)"

text \<open>Sequences of calls on one manager.\<close>

datatype 'e lm_call =
    AddToLayer 'e string
  | RemoveFromLayer 'e string
  | ClearLayer string
  | ClearAll

fun apply_call :: "'e LayerManager \<Rightarrow> 'e lm_call \<Rightarrow> 'e LayerManager" where
  "apply_call lm (AddToLayer e n) = addToLayer e n lm"
| "apply_call lm (RemoveFromLayer e n) = removeFromLayer e n lm"
| "apply_call lm (ClearLayer n) = clearLayer n lm"
| "apply_call lm ClearAll = clearAll lm"

definition lm_calls :: "'e lm_call list \<Rightarrow> 'e LayerManager" where
  "lm_calls cs = foldl apply_call new_LayerManager cs"

definition addAll :: "('e \<times> string) list \<Rightarrow> 'e LayerManager" where
  "addAll cs = foldl (\<lambda>lm (e, n). addToLayer e n lm) new_LayerManager cs"

text \<open>
  What a sequence of \<open>addToLayer\<close> calls asks of one layer: the entities named for it, in
  call order (\<open>added_to\<close>), each kept at its first mention (\<open>first_occurrences\<close>).
\<close>

definition added_to :: "layer \<Rightarrow> ('e \<times> string) list \<Rightarrow> 'e list" where
  "added_to l cs = map fst (filter (\<lambda>c. hasOwnProperty (snd c) = Some l) cs)"

definition first_occurrences :: "'e list \<Rightarrow> 'e list" where
  "first_occurrences xs = rev (remdups (rev xs))"

section \<open>The scene controller (SceneManager)\<close>

text \<open>
  The engine owns the layer manager; whatever else a scene's hooks can reach is the
  extension of the record. A scene object offers \<open>setEngine\<close> and, optionally, the hooks
  \<open>exit\<close>, \<open>enter\<close> and \<open>populateLayers\<close> (\<open>typeof \<dots> === 'function'\<close>); a hook is a
  transformer of the engine state.
\<close>

record 'e engine =
  layerManager :: "'e LayerManager"

record 'w Scene =
  exit_hook :: "('w \<Rightarrow> 'w) option"
  setEngine_hook :: "'w \<Rightarrow> 'w"
  enter_hook :: "('w \<Rightarrow> 'w) option"
  populateLayers_hook :: "('w \<Rightarrow> 'w) option"

text \<open>
  \<open>history\<close> records each step \<open>changeScene\<close> performs, together with the contents of
  the layers at the moment the step starts.
\<close>

datatype step = Exit | SetEngine | Clear | SetCurrent | Enter | PopulateLayers

record ('e, 'm) SceneManager =
  sm_engine :: "('e, 'm) engine_scheme"
  currentScene :: "('e, 'm) engine_scheme Scene option"
  history :: "(step \<times> (layer \<Rightarrow> 'e list)) list"

definition perform ::
  "step \<Rightarrow> (('e, 'm) engine_scheme \<Rightarrow> ('e, 'm) engine_scheme) \<Rightarrow>
   ('e, 'm) SceneManager \<Rightarrow> ('e, 'm) SceneManager" where
  "perform st f sm =
     sm\<lparr>history := history sm @ [(st, layerEntities (layerManager (sm_engine sm)))],
        sm_engine := f (sm_engine sm)\<rparr>"

definition changeScene ::
  "('e, 'm) engine_scheme Scene option \<Rightarrow> ('e, 'm) SceneManager \<Rightarrow> ('e, 'm) SceneManager" where
  "changeScene newScene sm =
     (let sm1 = (case currentScene sm of
                   None \<Rightarrow> sm
                 | Some cur \<Rightarrow> (case exit_hook cur of None \<Rightarrow> sm | Some f \<Rightarrow> perform Exit f sm));
          sm2 = (case newScene of
                   None \<Rightarrow> sm1
                 | Some new \<Rightarrow> perform SetEngine (setEngine_hook new) sm1);
          sm3 = perform Clear (\<lambda>w. w\<lparr>layerManager := clearAll (layerManager w)\<rparr>) sm2;
          sm4 = (perform SetCurrent (\<lambda>w. w) sm3)\<lparr>currentScene := newScene\<rparr>;
          sm5 = (case newScene of
                   None \<Rightarrow> sm4
                 | Some new \<Rightarrow> (case enter_hook new of None \<Rightarrow> sm4 | Some f \<Rightarrow> perform Enter f sm4));
          sm6 = (case newScene of
                   None \<Rightarrow> sm5
                 | Some new \<Rightarrow>
                     (case populateLayers_hook new of
                        None \<Rightarrow> sm5
                      | Some f \<Rightarrow> perform PopulateLayers f sm5))
      in sm6)"

text \<open>What calling an optional hook does to the engine: nothing when it is absent.\<close>

definition call_if_present :: "('w \<Rightarrow> 'w) option \<Rightarrow> 'w \<Rightarrow> 'w" where
  "call_if_present hook w = (case hook of None \<Rightarrow> w | Some f \<Rightarrow> f w)"

section \<open>The scene interpreter (ConfigurableScene.js)\<close>

subsection \<open>Numbers, truthiness and Map\<close>

text \<open>
  A JavaScript number is a real or \<open>NaN\<close>; the infinities are not modelled. \<open>NaN\<close>
  arises where arithmetic meets \<open>undefined\<close> (a property the object does not have), and
  every operation on \<open>NaN\<close> gives \<open>NaN\<close>.

  The host rounds the result of each operation to its number format. Where the code
  computes a position (\<open>_setSlideInStart\<close>, \<open>_updateSlideIn\<close>, \<open>_lerp\<close>) the model rounds
  each result with \<open>fl\<close>, the rounding of the host, which is a parameter: it can be any
  function, so what is proved holds for the rounding of doubles. Times, progress,
  opacity and scale are computed exactly.
\<close>

datatype num = Num real | NaN

instantiation num :: "{plus, minus, times, uminus}"
begin

fun plus_num :: "num \<Rightarrow> num \<Rightarrow> num" where
  "plus_num (Num a) (Num b) = Num (a + b)"
| "plus_num _ _ = NaN"

fun minus_num :: "num \<Rightarrow> num \<Rightarrow> num" where
  "minus_num (Num a) (Num b) = Num (a - b)"
| "minus_num _ _ = NaN"

fun times_num :: "num \<Rightarrow> num \<Rightarrow> num" where
  "times_num (Num a) (Num b) = Num (a * b)"
| "times_num _ _ = NaN"

fun uminus_num :: "num \<Rightarrow> num" where
  "uminus_num (Num a) = Num (- a)"
| "uminus_num NaN = NaN"

instance ..

end

definition rnd :: "(real \<Rightarrow> real) \<Rightarrow> num \<Rightarrow> num" where
  "rnd fl v = (case v of Num r \<Rightarrow> Num (fl r) | NaN \<Rightarrow> NaN)"

definition to_num :: "real option \<Rightarrow> num" where
  "to_num v = (case v of None \<Rightarrow> NaN | Some r \<Rightarrow> Num r)"

definition js_or :: "real option \<Rightarrow> real \<Rightarrow> real" where
  "js_or v d = (case v of None \<Rightarrow> d | Some r \<Rightarrow> if r = 0 then d else r)"

text \<open>\<open>truthy v\<close> is the string \<open>v\<close> when it passes \<open>if (v)\<close>: present and not empty.\<close>

definition truthy :: "string option \<Rightarrow> string option" where
  "truthy v = (case v of None \<Rightarrow> None | Some str \<Rightarrow> if str = [] then None else Some str)"

definition str_or :: "string option \<Rightarrow> string \<Rightarrow> string" where
  "str_or v d = (case v of None \<Rightarrow> d | Some str \<Rightarrow> if str = [] then d else str)"

text \<open>
  A \<open>Map\<close> keeps its entries in insertion order, and a \<open>for \<dots> of\<close> loop over it is live:
  it walks the entry list by position and sees what is appended while it runs.
  \<open>clear\<close> empties the entries in place, \<open>set\<close> overwrites the value of a present
  key and appends an absent one.
\<close>

type_synonym ('k, 'v) jsmap = "('k \<times> 'v) option list"

definition Map_clear :: "('k, 'v) jsmap \<Rightarrow> ('k, 'v) jsmap" where
  "Map_clear m = map (\<lambda>_. None) m"

fun Map_set :: "'k \<Rightarrow> 'v \<Rightarrow> ('k, 'v) jsmap \<Rightarrow> ('k, 'v) jsmap" where
  "Map_set k v [] = [Some (k, v)]"
| "Map_set k v (None # m) = None # Map_set k v m"
| "Map_set k v (Some (k', v') # m) =
     (if k' = k then Some (k, v) # m else Some (k', v') # Map_set k v m)"

fun Map_entries :: "('k, 'v) jsmap \<Rightarrow> ('k \<times> 'v) list" where
  "Map_entries [] = []"
| "Map_entries (None # m) = Map_entries m"
| "Map_entries (Some kv # m) = kv # Map_entries m"

definition Map_get :: "'k \<Rightarrow> ('k, 'v) jsmap \<Rightarrow> 'v option" where
  "Map_get k m = map_of (Map_entries m) k"

subsection \<open>Configuration documents\<close>

text \<open>
  The fields of a configuration that the interpreter's control flow, tracking and
  animation read. An absent field is \<open>None\<close>. The purely visual fields (text, colour,
  font, rotation, visibility, shape, radius, asset id) are left out: they are copied
  onto the entity and read only by its own drawing code.
\<close>

record action =
  act_action :: string
  act_target :: "string option"
  act_sound :: "string option"

record animConfig =
  ac_type :: string
  ac_duration :: "real option"
  ac_delay :: "real option"
  ac_easing :: "string option"
  ac_direction :: "string option"

record entityConfig =
  cfg_type :: string
  cfg_id :: "string option"
  cfg_x :: "real option"
  cfg_y :: "real option"
  cfg_width :: "real option"
  cfg_height :: "real option"
  cfg_alpha :: "real option"
  cfg_scaleX :: "real option"
  cfg_scaleY :: "real option"
  cfg_onClick :: "action option"
  cfg_animation :: "animConfig option"

record transition =
  tr_type :: string
  tr_duration :: "real option"
  nextState :: "string option"
  nextScene :: "string option"

text \<open>
  \<open>layers\<close> is \<open>Object.entries(state.layers)\<close>; a value that is not an array is \<open>None\<close>.
\<close>

record state =
  st_name :: string
  clearLayers :: bool
  layers :: "(string \<times> entityConfig list option) list option"
  transition :: "transition option"

subsection \<open>Entities and animations\<close>

text \<open>
  Entities are mutable objects, shared between the layers, the tracking map and the
  animation table: they live in a store (\<open>heap\<close>) and are named by their position in it.
  \<open>e_width\<close>, \<open>e_height\<close>, \<open>e_scaleX\<close> and \<open>e_scaleY\<close> are \<open>None\<close> on an object without
  the property.
\<close>

type_synonym handle = nat

datatype kind = Sprite | Button | Text | Shape

record entity =
  e_kind :: kind
  e_x :: num
  e_y :: num
  e_width :: "real option"
  e_height :: "real option"
  e_alpha :: real
  e_scaleX :: "real option"
  e_scaleY :: "real option"
  e_onClick :: "action option"

record animation =
  a_entity :: handle
  a_type :: string
  duration :: real
  delay :: real
  easing :: string
  direction :: string
  elapsed :: real
  started :: bool
  completed :: bool
  initialAlpha :: real
  initialX :: num
  initialY :: num
  initialScaleX :: real
  initialScaleY :: real

datatype msg = Warn string | Log string

record mouse =
  mouse_x :: real
  mouse_y :: real
  pressed :: bool

text \<open>
  The scene's own fields, the engine's layer manager, the entity store, the rounding of
  the host's arithmetic, what the scene writes to the console and its calls to
  collaborators: \<open>switchScene\<close> (inherited from Scene), \<open>audioManager.playSFX\<close> and each
  entity's \<open>checkClick\<close>.
\<close>

record scene = "handle engine" +
  sceneName :: string
  canvasSize :: "real \<times> real"
  states :: "state list"
  currentStateIndex :: nat
  currentStateName :: "string option"
  stateTimer :: real
  entities :: "(string, handle) jsmap"
  entityAnimations :: "(handle, animation) jsmap"
  heap :: "entity list"
  rounding :: "real \<Rightarrow> real"
  console :: "msg list"
  audioManager :: bool
  switchScene_calls :: "string list"
  playSFX_calls :: "string list"
  checkClick_calls :: "handle list"

subsection \<open>The entity factory\<close>

text \<open>
  Modelled from the spec: the classes Sprite and Button (entities/Sprite.js and
  entities/Button.js are not among the sources). A sprite is built from position and
  size and has opacity 1 and scale 1 unless the configuration sets them; a button is
  built from position, size and opacity, has no scale property, and carries the click
  action of its configuration.
\<close>

definition createSprite :: "entityConfig \<Rightarrow> entity" where
  "createSprite config =
     \<lparr>e_kind = Sprite,
      e_x = Num (js_or (cfg_x config) 0),
      e_y = Num (js_or (cfg_y config) 0),
      e_width = Some (js_or (cfg_width config) 0),
      e_height = Some (js_or (cfg_height config) 0),
      e_alpha = (case cfg_alpha config of None \<Rightarrow> 1 | Some a \<Rightarrow> a),
      e_scaleX = (case cfg_scaleX config of None \<Rightarrow> Some 1 | Some v \<Rightarrow> Some v),
      e_scaleY = (case cfg_scaleY config of None \<Rightarrow> Some 1 | Some v \<Rightarrow> Some v),
      e_onClick = None\<rparr>"

definition createButton :: "entityConfig \<Rightarrow> entity" where
  "createButton config =
     \<lparr>e_kind = Button,
      e_x = Num (js_or (cfg_x config) 0),
      e_y = Num (js_or (cfg_y config) 0),
      e_width = Some (js_or (cfg_width config) 200),
      e_height = Some (js_or (cfg_height config) 80),
      e_alpha = (case cfg_alpha config of None \<Rightarrow> 1 | Some a \<Rightarrow> a),
      e_scaleX = None,
      e_scaleY = None,
      e_onClick = cfg_onClick config\<rparr>"

definition createText :: "entityConfig \<Rightarrow> entity" where
  "createText config =
     \<lparr>e_kind = Text,
      e_x = Num (js_or (cfg_x config) 0),
      e_y = Num (js_or (cfg_y config) 0),
      e_width = None,
      e_height = None,
      e_alpha = (case cfg_alpha config of None \<Rightarrow> 1 | Some a \<Rightarrow> a),
      e_scaleX = None,
      e_scaleY = None,
      e_onClick = None\<rparr>"

definition createShape :: "entityConfig \<Rightarrow> entity" where
  "createShape config =
     \<lparr>e_kind = Shape,
      e_x = Num (js_or (cfg_x config) 0),
      e_y = Num (js_or (cfg_y config) 0),
      e_width = Some (js_or (cfg_width config) 100),
      e_height = Some (js_or (cfg_height config) 100),
      e_alpha = (case cfg_alpha config of None \<Rightarrow> 1 | Some a \<Rightarrow> a),
      e_scaleX = None,
      e_scaleY = None,
      e_onClick = None\<rparr>"

text \<open>A new object gets the next free place of the store.\<close>

definition alloc :: "entity \<Rightarrow> scene \<Rightarrow> handle option \<times> scene" where
  "alloc e s = (Some (length (heap s)), s\<lparr>heap := heap s @ [e]\<rparr>)"

definition createEntity :: "entityConfig \<Rightarrow> scene \<Rightarrow> handle option \<times> scene" where
  "createEntity config s =
     (if cfg_type config = ''sprite'' then alloc (createSprite config) s
      else if cfg_type config = ''button'' then alloc (createButton config) s
      else if cfg_type config = ''text'' then alloc (createText config) s
      else if cfg_type config = ''shape'' then alloc (createShape config) s
      else (None, s\<lparr>console := console s @ [Warn (''Unknown entity type: '' @ cfg_type config)]\<rparr>))"

subsection \<open>The animation engine\<close>

definition setSlideInStart ::
  "(real \<Rightarrow> real) \<Rightarrow> real \<times> real \<Rightarrow> entity \<Rightarrow> animation \<Rightarrow> entity" where
  "setSlideInStart fl canvas entity animation =
     (if direction animation = ''top'' then
        entity\<lparr>e_y := rnd fl (- to_num (e_height entity) - Num 100)\<rparr>
      else if direction animation = ''bottom'' then
        entity\<lparr>e_y := rnd fl (Num (snd canvas) + Num 100)\<rparr>
      else if direction animation = ''left'' then
        entity\<lparr>e_x := rnd fl (- to_num (e_width entity) - Num 100)\<rparr>
      else if direction animation = ''right'' then
        entity\<lparr>e_x := rnd fl (Num (fst canvas) + Num 100)\<rparr>
      else entity)"

definition new_animation :: "handle \<Rightarrow> entity \<Rightarrow> animConfig \<Rightarrow> animation" where
  "new_animation h entity animConfig =
     \<lparr>a_entity = h,
      a_type = ac_type animConfig,
      duration = js_or (ac_duration animConfig) 1,
      delay = js_or (ac_delay animConfig) 0,
      easing = str_or (ac_easing animConfig) ''linear'',
      direction = str_or (ac_direction animConfig) ''top'',
      elapsed = 0,
      started = False,
      completed = False,
      initialAlpha = e_alpha entity,
      initialX = e_x entity,
      initialY = e_y entity,
      initialScaleX = js_or (e_scaleX entity) 1,
      initialScaleY = js_or (e_scaleY entity) 1\<rparr>"

definition setupAnimation :: "handle \<Rightarrow> animConfig \<Rightarrow> scene \<Rightarrow> scene" where
  "setupAnimation h animConfig s =
     (let entity = heap s ! h;
          animation = new_animation h entity animConfig;
          entity' =
            (if ac_type animConfig = ''fadeIn'' then entity\<lparr>e_alpha := 0\<rparr>
             else if ac_type animConfig = ''fadeOut'' then entity
             else if ac_type animConfig = ''slideIn'' then
               setSlideInStart (rounding s) (canvasSize s) entity animation
             else if ac_type animConfig = ''scale'' then entity\<lparr>e_scaleX := Some 0, e_scaleY := Some 0\<rparr>
             else entity)
      in s\<lparr>heap := (heap s)[h := entity'],
           entityAnimations := Map_set h animation (entityAnimations s)\<rparr>)"

definition applyEasing :: "real \<Rightarrow> string \<Rightarrow> real" where
  "applyEasing t easing_name =
     (if easing_name = ''easeIn'' then t * t
      else if easing_name = ''easeOut'' then 1 - (1 - t) * (1 - t)
      else if easing_name = ''easeInOut'' then
        (if t < 0.5 then 2 * t * t else 1 - (- 2 * t + 2) ^ 2 / 2)
      else t)"

text \<open>
  \<open>_lerp\<close> is \<open>start + (end - start) * t\<close>: a subtraction, a product and a sum, each
  rounded.
\<close>

definition lerp :: "(real \<Rightarrow> real) \<Rightarrow> num \<Rightarrow> num \<Rightarrow> real \<Rightarrow> num" where
  "lerp fl start finish t = rnd fl (start + rnd fl (rnd fl (finish - start) * Num t))"

definition updateSlideIn :: "(real \<Rightarrow> real) \<Rightarrow> entity \<Rightarrow> animation \<Rightarrow> real \<Rightarrow> entity" where
  "updateSlideIn fl entity anim progress =
     (if direction anim = ''top'' \<or> direction anim = ''bottom'' then
        (let entity1 = entity\<lparr>e_y := rnd fl (initialY anim
                          + rnd fl (rnd fl (initialY anim - e_y entity) * Num (1 - (1 - progress))))\<rparr>
         in entity1\<lparr>e_y := lerp fl (e_y entity1) (initialY anim) progress\<rparr>)
      else if direction anim = ''left'' \<or> direction anim = ''right'' then
        entity\<lparr>e_x := lerp fl (e_x entity) (initialX anim) progress\<rparr>
      else entity)"

text \<open>
  The body of the loop of \<open>_updateAnimations\<close>, for one entry of the animation table.
  \<open>duration\<close> is never 0 on an animation made by \<open>_setupAnimation\<close>.
\<close>

definition updateAnimation ::
  "(real \<Rightarrow> real) \<Rightarrow> real \<Rightarrow> animation \<Rightarrow> entity \<Rightarrow> animation \<times> entity" where
  "updateAnimation fl dt anim0 entity =
     (if completed anim0 then (anim0, entity)
      else
        let anim = anim0\<lparr>elapsed := elapsed anim0 + dt\<rparr> in
        if elapsed anim < delay anim then (anim, entity)
        else
          let effectiveElapsed = elapsed anim - delay anim;
              progress = min (effectiveElapsed / duration anim) 1;
              easedProgress = applyEasing progress (easing anim);
              entity' =
                (if a_type anim = ''fadeIn'' then
                   entity\<lparr>e_alpha := easedProgress * initialAlpha anim\<rparr>
                 else if a_type anim = ''fadeOut'' then
                   entity\<lparr>e_alpha := initialAlpha anim * (1 - easedProgress)\<rparr>
                 else if a_type anim = ''slideIn'' then
                   updateSlideIn fl entity anim easedProgress
                 else if a_type anim = ''scale'' then
                   entity\<lparr>e_scaleX := Some (easedProgress * initialScaleX anim),
                           e_scaleY := Some (easedProgress * initialScaleY anim)\<rparr>
                 else if a_type anim = ''pulse'' then
                   (let pulse = 1 + sin (effectiveElapsed * 4) * 0.1
                    in entity\<lparr>e_scaleX := Some (initialScaleX anim * pulse),
                               e_scaleY := Some (initialScaleY anim * pulse)\<rparr>)
                 else entity)
          in (if progress \<ge> 1 \<and> a_type anim \<noteq> ''pulse''
              then anim\<lparr>completed := True\<rparr> else anim, entity'))"

fun updateAnimations_loop ::
  "(real \<Rightarrow> real) \<Rightarrow> real \<Rightarrow> (handle, animation) jsmap \<Rightarrow> entity list \<Rightarrow>
   (handle, animation) jsmap \<times> entity list" where
  "updateAnimations_loop fl dt [] hp = ([], hp)"
| "updateAnimations_loop fl dt (None # m) hp =
     (let (m', hp') = updateAnimations_loop fl dt m hp in (None # m', hp'))"
| "updateAnimations_loop fl dt (Some (h, anim) # m) hp =
     (let (anim', entity') = updateAnimation fl dt anim (hp ! h);
          (m', hp') = updateAnimations_loop fl dt m (hp[h := entity'])
      in (Some (h, anim') # m', hp'))"

definition updateAnimations :: "real \<Rightarrow> scene \<Rightarrow> scene" where
  "updateAnimations dt s =
     (let (m, hp) = updateAnimations_loop (rounding s) dt (entityAnimations s) (heap s)
      in s\<lparr>entityAnimations := m, heap := hp\<rparr>)"

subsection \<open>The state machine\<close>

definition setupEntity :: "string \<Rightarrow> entityConfig \<Rightarrow> scene \<Rightarrow> scene" where
  "setupEntity layerName entityConfig s =
     (case createEntity entityConfig s of
        (None, s1) \<Rightarrow> s1
      | (Some entity, s1) \<Rightarrow>
          let s2 = s1\<lparr>layerManager := addToLayer entity layerName (layerManager s1)\<rparr>;
              s3 = (case truthy (cfg_id entityConfig) of
                      None \<Rightarrow> s2
                    | Some i \<Rightarrow> s2\<lparr>entities := Map_set i entity (entities s2)\<rparr>)
          in (case cfg_animation entityConfig of
                None \<Rightarrow> s3
              | Some animConfig \<Rightarrow> setupAnimation entity animConfig s3))"

definition setupLayer :: "string \<times> entityConfig list option \<Rightarrow> scene \<Rightarrow> scene" where
  "setupLayer entry s =
     (case snd entry of
        None \<Rightarrow> s
      | Some configs \<Rightarrow> fold (setupEntity (fst entry)) configs s)"

definition setupState :: "state \<Rightarrow> scene \<Rightarrow> scene" where
  "setupState st s =
     (let s1 = (if clearLayers st
                then s\<lparr>layerManager := clearAll (layerManager s),
                       entities := Map_clear (entities s),
                       entityAnimations := Map_clear (entityAnimations s)\<rparr>
                else s)
      in (case layers st of
            None \<Rightarrow> s1
          | Some entries \<Rightarrow> fold setupLayer entries s1))"

fun findIndex :: "('a \<Rightarrow> bool) \<Rightarrow> 'a list \<Rightarrow> nat option" where
  "findIndex P [] = None"
| "findIndex P (x # xs) = (if P x then Some 0 else map_option Suc (findIndex P xs))"

definition switchToState :: "string \<Rightarrow> scene \<Rightarrow> scene" where
  "switchToState stateName s =
     (case findIndex (\<lambda>st. st_name st = stateName) (states s) of
        None \<Rightarrow>
          s\<lparr>console := console s @ [Warn (''['' @ sceneName s @ ''] State not found: '' @ stateName)]\<rparr>
      | Some stateIndex \<Rightarrow>
          setupState (states s ! stateIndex)
            (s\<lparr>console := console s
                  @ [Log (''['' @ sceneName s @ ''] Switching to state: '' @ stateName)],
               currentStateIndex := stateIndex,
               currentStateName := Some stateName,
               stateTimer := 0\<rparr>))"

text \<open>
  Modelled from the spec: \<open>switchScene\<close>, inherited from Scene (scenes/Scene.js is not
  among the sources), delegates to the scene controller. The request is recorded; what
  the controller then does to this scene is not part of the interpreter.
\<close>

definition switchScene :: "string \<Rightarrow> scene \<Rightarrow> scene" where
  "switchScene target s = s\<lparr>switchScene_calls := switchScene_calls s @ [target]\<rparr>"

definition handleButtonAction :: "action \<Rightarrow> scene \<Rightarrow> scene" where
  "handleButtonAction a s0 =
     (let s = s0\<lparr>console := console s0 @ [Log (''['' @ sceneName s0 @ ''] Button action:'')]\<rparr> in
      if act_action a = ''switchScene'' then
        (case truthy (act_target a) of None \<Rightarrow> s | Some target \<Rightarrow> switchScene target s)
      else if act_action a = ''switchState'' then
        (case truthy (act_target a) of None \<Rightarrow> s | Some target \<Rightarrow> switchToState target s)
      else if act_action a = ''playSound'' then
        (case truthy (act_sound a) of
           None \<Rightarrow> s
         | Some sound \<Rightarrow>
             if audioManager s then s\<lparr>playSFX_calls := playSFX_calls s @ [sound]\<rparr> else s)
      else if act_action a = ''custom'' then
        s\<lparr>console := console s @ [Log ''Custom action:'']\<rparr>
      else s)"

definition handleTransition :: "transition \<Rightarrow> scene \<Rightarrow> scene" where
  "handleTransition tr s =
     (case truthy (nextScene tr) of
        Some target \<Rightarrow> switchScene target s
      | None \<Rightarrow>
          (case truthy (nextState tr) of
             Some target \<Rightarrow> switchToState target s
           | None \<Rightarrow> s))"

text \<open>
  Modelled from the spec: \<open>checkClick\<close> of an entity with a click capability (the class
  Button is not among the sources) tests a point and invokes the associated action when
  it is hit. The test itself is the parameter \<open>hit\<close>.
\<close>

definition checkClick :: "(entity \<Rightarrow> real \<Rightarrow> real \<Rightarrow> bool) \<Rightarrow> handle \<Rightarrow> real \<Rightarrow> real \<Rightarrow> scene \<Rightarrow> scene" where
  "checkClick hit h px py s0 =
     (let s = s0\<lparr>checkClick_calls := checkClick_calls s0 @ [h]\<rparr> in
      if hit (heap s ! h) px py then
        (case e_onClick (heap s ! h) of None \<Rightarrow> s | Some a \<Rightarrow> handleButtonAction a s)
      else s)"

text \<open>
  The loop of \<open>_handleButtonClicks\<close> walks \<open>this.entities\<close> while a click may switch the
  state and so clear and refill that map; it visits the entries by position in the
  map as it is at each step. Nothing bounds the walk, so it takes fuel: \<open>None\<close> is a
  walk that has not ended within the fuel.
\<close>

fun handleButtonClicks_loop ::
  "nat \<Rightarrow> (entity \<Rightarrow> real \<Rightarrow> real \<Rightarrow> bool) \<Rightarrow> real \<Rightarrow> real \<Rightarrow> nat \<Rightarrow> scene \<Rightarrow> scene option" where
  "handleButtonClicks_loop 0 hit px py i s = None"
| "handleButtonClicks_loop (Suc fuel) hit px py i s =
     (if i \<ge> length (entities s) then Some s
      else
        (case entities s ! i of
           None \<Rightarrow> handleButtonClicks_loop fuel hit px py (i + 1) s
         | Some (ident, h) \<Rightarrow>
             handleButtonClicks_loop fuel hit px py (i + 1)
               (if e_kind (heap s ! h) = Button then checkClick hit h px py s else s)))"

definition handleButtonClicks ::
  "nat \<Rightarrow> (entity \<Rightarrow> real \<Rightarrow> real \<Rightarrow> bool) \<Rightarrow> mouse \<Rightarrow> scene \<Rightarrow> scene option" where
  "handleButtonClicks fuel hit m s = handleButtonClicks_loop fuel hit (mouse_x m) (mouse_y m) 0 s"

definition update ::
  "nat \<Rightarrow> (entity \<Rightarrow> real \<Rightarrow> real \<Rightarrow> bool) \<Rightarrow> mouse \<Rightarrow> real \<Rightarrow> scene \<Rightarrow> scene option" where
  "update fuel hit m dt s =
     (if states s = [] then Some s
      else if currentStateIndex s \<ge> length (states s) then Some s
      else
        let currentState = states s ! currentStateIndex s;
            s1 = s\<lparr>stateTimer := stateTimer s + dt\<rparr>;
            s2 = updateAnimations dt s1
        in (case (if pressed m then handleButtonClicks fuel hit m s2 else Some s2) of
              None \<Rightarrow> None
            | Some s3 \<Rightarrow>
                Some (case transition currentState of
                        None \<Rightarrow> s3
                      | Some tr \<Rightarrow>
                          if tr_type tr = ''timer'' then
                            (case tr_duration tr of
                               None \<Rightarrow> s3
                             | Some d \<Rightarrow> if stateTimer s3 \<ge> d then handleTransition tr s3 else s3)
                          else s3)))"

text \<open>
  \<open>enter\<close>, \<open>exit\<close> and \<open>populateLayers\<close>; the inherited \<open>super.enter()\<close> and
  \<open>super.exit()\<close> and the asset loader are outside the interpreter.
\<close>

definition enter :: "scene \<Rightarrow> scene" where
  "enter s =
     (let s1 = s\<lparr>currentStateIndex := 0, stateTimer := 0\<rparr> in
      case states s1 of
        [] \<Rightarrow> s1
      | st # _ \<Rightarrow>
          s1\<lparr>currentStateName := Some (st_name st),
             console := console s1
               @ [Log (''['' @ sceneName s1 @ ''] Entering state: '' @ st_name st)]\<rparr>)"

definition exit :: "scene \<Rightarrow> scene" where
  "exit s = s\<lparr>entities := Map_clear (entities s),
              entityAnimations := Map_clear (entityAnimations s)\<rparr>"

definition populateLayers :: "scene \<Rightarrow> scene" where
  "populateLayers s = (case states s of [] \<Rightarrow> s | st # _ \<Rightarrow> setupState st s)"

text \<open>
  The constructor and \<open>loadFromConfig\<close>. The scene is bound to the engine whose layer
  manager it is given, on a host whose rounding it is given; the asset manifest is
  opaque to the interpreter.
\<close>

record sceneConfig =
  sc_sceneName :: "string option"
  sc_canvasSize :: "(real \<times> real) option"
  sc_states :: "state list option"

definition new_ConfigurableScene :: "(real \<Rightarrow> real) \<Rightarrow> handle LayerManager \<Rightarrow> scene" where
  "new_ConfigurableScene fl lm =
     \<lparr>layerManager = lm,
      sceneName = ''ConfigurableScene'',
      canvasSize = (1080, 1920),
      states = [],
      currentStateIndex = 0,
      currentStateName = None,
      stateTimer = 0,
      entities = [],
      entityAnimations = [],
      heap = [],
      rounding = fl,
      console = [],
      audioManager = False,
      switchScene_calls = [],
      playSFX_calls = [],
      checkClick_calls = []\<rparr>"

definition loadFromConfig :: "sceneConfig \<Rightarrow> scene \<Rightarrow> scene" where
  "loadFromConfig config s =
     s\<lparr>sceneName := str_or (sc_sceneName config) ''ConfigurableScene'',
       canvasSize := (case sc_canvasSize config of None \<Rightarrow> canvasSize s | Some c \<Rightarrow> c),
       states := (case sc_states config of None \<Rightarrow> [] | Some sts \<Rightarrow> sts)\<rparr>"

text \<open>What a host can do with a scene, and runs of such calls.\<close>

datatype call =
    Update nat mouse real
  | SwitchToState string
  | EnterScene
  | ExitScene
  | PopulateScene

fun run_call :: "(entity \<Rightarrow> real \<Rightarrow> real \<Rightarrow> bool) \<Rightarrow> call \<Rightarrow> scene \<Rightarrow> scene option" where
  "run_call hit (Update fuel m dt) s = update fuel hit m dt s"
| "run_call hit (SwitchToState n) s = Some (switchToState n s)"
| "run_call hit EnterScene s = Some (enter s)"
| "run_call hit ExitScene s = Some (exit s)"
| "run_call hit PopulateScene s = Some (populateLayers s)"

fun run_calls :: "(entity \<Rightarrow> real \<Rightarrow> real \<Rightarrow> bool) \<Rightarrow> call list \<Rightarrow> scene \<Rightarrow> scene option" where
  "run_calls hit [] s = Some s"
| "run_calls hit (c # cs) s =
     (case run_call hit c s of None \<Rightarrow> None | Some s' \<Rightarrow> run_calls hit cs s')"

section \<open>Invariants and example data\<close>

text \<open>
  What stays true of one animation and its entity from tick to tick; \<open>t\<close> is the time
  the ticks have added up to.
\<close>

definition fadeIn_inv :: "real \<Rightarrow> animation \<Rightarrow> entity \<Rightarrow> bool" where
  "fadeIn_inv t a e \<longleftrightarrow>
     a_type a = ''fadeIn'' \<and> duration a = 1 \<and> delay a = 0 \<and> easing a = ''linear''
     \<and> initialAlpha a = 1
     \<and> (\<not> completed a \<longrightarrow> elapsed a = t)
     \<and> (0 \<le> elapsed a \<longrightarrow> e_alpha e = min (elapsed a) 1)
     \<and> (completed a \<longleftrightarrow> 1 \<le> elapsed a)"


definition pulse_inv :: "real \<Rightarrow> real \<Rightarrow> real \<Rightarrow> animation \<Rightarrow> entity \<Rightarrow> bool" where
  "pulse_inv sx sy t a e \<longleftrightarrow>
     a_type a = ''pulse'' \<and> \<not> completed a \<and> initialScaleX a = sx \<and> initialScaleY a = sy
     \<and> elapsed a = t"

text \<open>
  \<open>known_handles\<close>: the tracking map and the record of click tests name only objects
  of the store. \<open>sound\<close>: that, and the keys of the animation table are distinct, as
  the keys of a Map are. \<open>untracked h\<close>: the object \<open>h\<close> exists, is under no id in the
  tracking map, and has not been click-tested.
\<close>

definition known_handles :: "scene \<Rightarrow> bool" where
  "known_handles s \<longleftrightarrow>
     (\<forall>h \<in> set (checkClick_calls s). h < length (heap s))
     \<and> (\<forall>h \<in> snd ` set (Map_entries (entities s)). h < length (heap s))"

definition sound :: "scene \<Rightarrow> bool" where
  "sound s \<longleftrightarrow>
     known_handles s \<and> distinct (map fst (Map_entries (entityAnimations s)))"


text \<open>
  A stage with one shape, animation configurations for it, and a scene of two states:
  A shows two buttons that switch to B, one with an id and one without, and moves on to
  B after 2 seconds; B shows a text.
\<close>

definition demo_shape :: entityConfig where
  "demo_shape =
     \<lparr>cfg_type = ''shape'', cfg_id = Some ''box'', cfg_x = Some 50, cfg_y = Some 20,
      cfg_width = Some 200, cfg_height = Some 100, cfg_alpha = None, cfg_scaleX = None,
      cfg_scaleY = None, cfg_onClick = None, cfg_animation = None\<rparr>"

definition demo_stage :: scene where
  "demo_stage = setupEntity ''SHAPES'' demo_shape (new_ConfigurableScene (\<lambda>r. r) new_LayerManager)"

definition demo_fadeIn :: animConfig where
  "demo_fadeIn = \<lparr>ac_type = ''fadeIn'', ac_duration = Some 1, ac_delay = Some 0,
     ac_easing = Some ''linear'', ac_direction = None\<rparr>"



definition demo_pulse :: animConfig where
  "demo_pulse = \<lparr>ac_type = ''pulse'', ac_duration = None, ac_delay = Some 1,
     ac_easing = None, ac_direction = None\<rparr>"

definition demo_button :: entityConfig where
  "demo_button =
     \<lparr>cfg_type = ''button'', cfg_id = Some ''go'', cfg_x = Some 100, cfg_y = Some 100,
      cfg_width = None, cfg_height = None, cfg_alpha = None, cfg_scaleX = None,
      cfg_scaleY = None,
      cfg_onClick = Some \<lparr>act_action = ''switchState'', act_target = Some ''B'', act_sound = None\<rparr>,
      cfg_animation = None\<rparr>"

definition demo_text :: entityConfig where
  "demo_text =
     \<lparr>cfg_type = ''text'', cfg_id = None, cfg_x = None, cfg_y = None,
      cfg_width = None, cfg_height = None, cfg_alpha = None, cfg_scaleX = None,
      cfg_scaleY = None, cfg_onClick = None, cfg_animation = None\<rparr>"

definition demo_timer :: transition where
  "demo_timer = \<lparr>tr_type = ''timer'', tr_duration = Some 2,
     nextState = Some ''B'', nextScene = None\<rparr>"

definition demo_A :: state where
  "demo_A =
     \<lparr>st_name = ''A'', clearLayers = True,
      layers = Some [(''UI_BUTTONS'', Some [demo_button, demo_button\<lparr>cfg_id := None\<rparr>])],
      transition = Some demo_timer\<rparr>"

definition demo_B :: state where
  "demo_B =
     \<lparr>st_name = ''B'', clearLayers = True,
      layers = Some [(''TEXT'', Some [demo_text])],
      transition = None\<rparr>"

definition demo_config :: sceneConfig where
  "demo_config = \<lparr>sc_sceneName = Some ''Demo'', sc_canvasSize = None,
     sc_states = Some [demo_A, demo_B]\<rparr>"

definition demo_scene :: scene where
  "demo_scene = enter (loadFromConfig demo_config (new_ConfigurableScene (\<lambda>r. r) new_LayerManager))"

definition idle :: mouse where
  "idle = \<lparr>mouse_x = 0, mouse_y = 0, pressed = False\<rparr>"


definition demo_hooks :: "scene Scene" where
  "demo_hooks = \<lparr>exit_hook = Some exit, setEngine_hook = (\<lambda>w. w),
     enter_hook = Some enter, populateLayers_hook = Some populateLayers\<rparr>"

definition demo_controller :: "(handle, unit scene_ext) SceneManager" where
  "demo_controller = \<lparr>sm_engine = loadFromConfig demo_config demo_stage,
     currentScene = Some demo_hooks, history = []\<rparr>"

section \<open>Properties of the layer compositor\<close>

lemma sortedLayers_eq:
  "sortedLayers = [BG_FAR, BG_NEAR, VIDEO_IMAGE, SHAPES, SPRITES, TEXT, UI_BUTTONS]"
  by (simp add: sortedLayers_def layer_keys_def)

lemma new_layers: "layerEntities new_LayerManager l = []"
  by (simp add: new_LayerManager_def layer_keys_def)

lemma clearAll_layers: "layerEntities (clearAll lm) l = []"
  by (cases l) (simp_all add: clearAll_def layer_keys_def)

lemma first_occurrences_snoc:
  "first_occurrences (xs @ [x]) =
     (if x \<in> set xs then first_occurrences xs else first_occurrences xs @ [x])"
  by (simp add: first_occurrences_def)

lemma set_first_occurrences: "set (first_occurrences xs) = set xs"
  by (simp add: first_occurrences_def)

lemma layer_addToLayer:
  "layerEntities (addToLayer e n lm) l =
     (if hasOwnProperty n = Some l \<and> e \<notin> set (layerEntities lm l)
      then layerEntities lm l @ [e] else layerEntities lm l)"
  by (simp add: addToLayer_def split: option.splits)

lemma layer_addAll: "layerEntities (addAll cs) l = first_occurrences (added_to l cs)"
proof (induction cs rule: rev_induct)
  case Nil
  show ?case by (simp add: addAll_def new_layers added_to_def first_occurrences_def)
next
  case (snoc c cs)
  obtain e n where c: "c = (e, n)" by (cases c)
  have "layerEntities (addAll (cs @ [c])) l = layerEntities (addToLayer e n (addAll cs)) l"
    by (simp add: addAll_def c)
  also have "\<dots> = first_occurrences (added_to l (cs @ [c]))"
    using snoc.IH
    by (simp add: layer_addToLayer c added_to_def first_occurrences_snoc set_first_occurrences)
  finally show ?case .
qed

text \<open>
  Claim C1. Whatever the sequence of \<open>addToLayer\<close> calls on a new manager, \<open>render\<close>
  visits the layers in the fixed order BG_FAR, BG_NEAR, VIDEO_IMAGE, SHAPES, SPRITES,
  TEXT, UI_BUTTONS, and within a layer the entities added to it in the order of their
  first addition. Two call sequences that ask the same of every layer, however their
  calls are interleaved across layers, are rendered alike.
\<close>

theorem render_layer_order:
  "render renderable (addAll cs) =
     concat (map (\<lambda>l. filter renderable (first_occurrences (added_to l cs)))
       [BG_FAR, BG_NEAR, VIDEO_IMAGE, SHAPES, SPRITES, TEXT, UI_BUTTONS])
   \<and> (\<forall>cs'. (\<forall>l. added_to l cs' = added_to l cs) \<longrightarrow>
         render renderable (addAll cs') = render renderable (addAll cs))"
  by (simp add: render_def sortedLayers_eq layer_addAll)

theorem render_layer_order_witness:
  "render (\<lambda>e. True) (addAll [(3::nat, ''TEXT''), (1, ''BG_FAR''), (2, ''TEXT'')]) = [1, 3, 2]
   \<and> render (\<lambda>e. True) (addAll [(1::nat, ''BG_FAR''), (3, ''TEXT''), (2, ''TEXT'')]) = [1, 3, 2]"
proof -
  have same: "\<forall>l. added_to l [(1::nat, ''BG_FAR''), (3, ''TEXT''), (2, ''TEXT'')]
      = added_to l [(3::nat, ''TEXT''), (1, ''BG_FAR''), (2, ''TEXT'')]"
    by (simp add: added_to_def hasOwnProperty_def)
  have v: "concat (map (\<lambda>l. filter (\<lambda>e. True)
        (first_occurrences (added_to l [(3::nat, ''TEXT''), (1, ''BG_FAR''), (2, ''TEXT'')])))
       [BG_FAR, BG_NEAR, VIDEO_IMAGE, SHAPES, SPRITES, TEXT, UI_BUTTONS]) = [1, 3, 2]"
    by (simp add: added_to_def hasOwnProperty_def first_occurrences_def)
  show ?thesis
    using render_layer_order [of "\<lambda>e. True" "[(3::nat, ''TEXT''), (1, ''BG_FAR''), (2, ''TEXT'')]"]
      same v
    by metis
qed

lemma distinct_lm_calls: "distinct (layerEntities (lm_calls cs) l)"
proof (induction cs arbitrary: l rule: rev_induct)
  case Nil
  show ?case by (simp add: lm_calls_def new_layers)
next
  case (snoc c cs)
  have step: "lm_calls (cs @ [c']) = apply_call (lm_calls cs) c'" for c'
    by (simp add: lm_calls_def)
  show ?case
  proof (cases c)
    case (AddToLayer e n)
    then show ?thesis using snoc.IH by (simp add: step layer_addToLayer)
  next
    case (RemoveFromLayer e n)
    then show ?thesis using snoc.IH
      by (simp add: step removeFromLayer_def split: option.splits)
  next
    case (ClearLayer n)
    then show ?thesis using snoc.IH
      by (simp add: step clearLayer_def split: option.splits)
  next
    case ClearAll
    then show ?thesis by (simp add: step clearAll_layers)
  qed
qed

lemma count_list_distinct:
  "distinct xs \<Longrightarrow> count_list xs x = (if x \<in> set xs then 1 else 0)"
  by (induction xs) auto

lemma count_list_filter: "count_list (filter P xs) x = (if P x then count_list xs x else 0)"
  by (induction xs) auto

lemma count_list_render:
  "count_list (render renderable lm) e =
     (if renderable e then (\<Sum>l\<leftarrow>sortedLayers. count_list (layerEntities lm l) e) else 0)"
  by (simp add: render_def sortedLayers_eq count_list_filter)

lemma added_twice_layer:
  assumes "hasOwnProperty n = Some l"
  shows "layerEntities (addToLayer e n (addToLayer e n lm)) l' =
     (if l' = l \<and> e \<notin> set (layerEntities lm l) then layerEntities lm l @ [e]
      else layerEntities lm l')"
  using assms by (auto simp add: layer_addToLayer)

lemma added_twice_calls:
  "addToLayer e n (addToLayer e n (lm_calls cs)) = lm_calls (cs @ [AddToLayer e n, AddToLayer e n])"
  by (simp add: lm_calls_def)

lemma sum_list_indicator:
  "(\<Sum>x\<leftarrow>xs. if P x then 1 else 0) = length (filter P xs)"
  by (induction xs) auto

text \<open>
  Claim C2. On a manager reached by any sequence of its operations, adding the same
  entity twice to the same recognized layer leaves exactly one occurrence of it in that
  layer. One \<open>render\<close> then calls the entity's \<open>render\<close> once for each layer that holds
  it, never twice for one layer: exactly once if the entity can be rendered and is in no
  other layer.
\<close>

theorem add_twice_once:
  assumes "hasOwnProperty layerName = Some l"
  shows "count_list (layerEntities
            (addToLayer e layerName (addToLayer e layerName (lm_calls cs))) l) e = 1
    \<and> count_list (render renderable
            (addToLayer e layerName (addToLayer e layerName (lm_calls cs)))) e
        = (if renderable e
           then length (filter (\<lambda>l'. e \<in> set (layerEntities
                    (addToLayer e layerName (addToLayer e layerName (lm_calls cs))) l'))
                  [BG_FAR, BG_NEAR, VIDEO_IMAGE, SHAPES, SPRITES, TEXT, UI_BUTTONS])
           else 0)
    \<and> (renderable e \<and> (\<forall>l'. l' \<noteq> l \<longrightarrow> e \<notin> set (layerEntities (lm_calls cs) l')) \<longrightarrow>
         count_list (render renderable
            (addToLayer e layerName (addToLayer e layerName (lm_calls cs)))) e = 1)"
proof -
  let ?lm = "lm_calls cs"
  let ?lm2 = "addToLayer e layerName (addToLayer e layerName ?lm)"
  have d: "distinct (layerEntities ?lm l)" by (rule distinct_lm_calls)
  have d2: "distinct (layerEntities ?lm2 l')" for l'
    unfolding added_twice_calls by (rule distinct_lm_calls)
  have one: "count_list (layerEntities ?lm2 l) e = 1"
    using d by (simp add: added_twice_layer [OF assms] count_list_distinct)
  have per_layer: "count_list (render renderable ?lm2) e
        = (if renderable e
           then length (filter (\<lambda>l'. e \<in> set (layerEntities ?lm2 l'))
                  [BG_FAR, BG_NEAR, VIDEO_IMAGE, SHAPES, SPRITES, TEXT, UI_BUTTONS])
           else 0)"
    unfolding count_list_render sortedLayers_eq
    by (simp only: count_list_distinct [OF d2] sum_list_indicator)
  have other: "count_list (layerEntities ?lm2 l') e = 0"
    if "l' \<noteq> l" "e \<notin> set (layerEntities ?lm l')" for l'
    using that by (simp add: added_twice_layer [OF assms])
  have "count_list (render renderable ?lm2) e = 1"
    if r: "renderable e" and o: "\<forall>l'. l' \<noteq> l \<longrightarrow> e \<notin> set (layerEntities ?lm l')"
  proof -
    have each: "count_list (layerEntities ?lm2 l') e = (if l' = l then 1 else 0)" for l'
      using one other o by auto
    show ?thesis
      using r by (cases l) (simp_all add: count_list_render sortedLayers_eq each)
  qed
  with one per_layer show ?thesis by blast
qed

theorem add_twice_once_witness:
  "count_list (layerEntities (addToLayer (7::nat) ''SPRITES'' (addToLayer 7 ''SPRITES''
      (lm_calls [AddToLayer 7 ''SPRITES'', AddToLayer 3 ''TEXT'', RemoveFromLayer 3 ''TEXT''])))
      SPRITES) 7 = 1
   \<and> count_list (render (\<lambda>e. True) (addToLayer (7::nat) ''SPRITES'' (addToLayer 7 ''SPRITES''
      (lm_calls [AddToLayer 7 ''SPRITES'', AddToLayer 3 ''TEXT'', RemoveFromLayer 3 ''TEXT''])))) 7 = 1"
proof -
  have h: "hasOwnProperty ''SPRITES'' = Some SPRITES" by (simp add: hasOwnProperty_def)
  have o: "\<forall>l'. l' \<noteq> SPRITES \<longrightarrow>
      (7::nat) \<notin> set (layerEntities
        (lm_calls [AddToLayer 7 ''SPRITES'', AddToLayer 3 ''TEXT'', RemoveFromLayer 3 ''TEXT'']) l')"
    by (simp add: lm_calls_def layer_addToLayer removeFromLayer_def hasOwnProperty_def new_layers)
  show ?thesis
    using add_twice_once [OF h, of 7
        "[AddToLayer 7 ''SPRITES'', AddToLayer 3 ''TEXT'', RemoveFromLayer 3 ''TEXT'']" "\<lambda>e. True"] o
    by blast
qed

section \<open>Properties of the scene controller\<close>

lemma clearAll_snapshot: "layerEntities (clearAll lm) = (\<lambda>_. [])"
  by (rule ext) (rule clearAll_layers)

text \<open>
  Claim C3. \<open>changeScene\<close> performs, in this order: the current scene's \<open>exit\<close> (if it
  has one), \<open>setEngine\<close> on the new scene, the clearing of every layer, the assignment
  of the current scene, the new scene's \<open>enter\<close> (if it has one) and its
  \<open>populateLayers\<close> (if it has one). The engine it leaves is the engine it found, taken
  through these steps one after the other (\<open>w1\<close> after exit, \<open>w2\<close> after setEngine, \<open>w3\<close>
  after the clearing, \<open>w4\<close> after enter, \<open>w5\<close> after populateLayers), and the new scene
  is current. Every layer of \<open>w3\<close> is empty; the layers are empty when the current scene
  is assigned and when \<open>enter\<close> starts, and what they hold when \<open>populateLayers\<close> starts
  is what \<open>enter\<close> made of \<open>w3\<close>: nothing of the previous scene.
\<close>

theorem changeScene_order:
  "let w1 = call_if_present
              (case currentScene sm of None \<Rightarrow> None | Some cur \<Rightarrow> exit_hook cur) (sm_engine sm);
       w2 = setEngine_hook new w1;
       w3 = w2\<lparr>layerManager := clearAll (layerManager w2)\<rparr>;
       w4 = call_if_present (enter_hook new) w3;
       w5 = call_if_present (populateLayers_hook new) w4
   in sm_engine (changeScene (Some new) sm) = w5
     \<and> currentScene (changeScene (Some new) sm) = Some new
     \<and> (\<forall>l. layerEntities (layerManager w3) l = [])
     \<and> history (changeScene (Some new) sm) =
         history sm
         @ (case currentScene sm of
              None \<Rightarrow> []
            | Some cur \<Rightarrow>
                (case exit_hook cur of
                   None \<Rightarrow> []
                 | Some f \<Rightarrow> [(Exit, layerEntities (layerManager (sm_engine sm)))]))
         @ [(SetEngine, layerEntities (layerManager w1)),
            (Clear, layerEntities (layerManager w2)),
            (SetCurrent, \<lambda>_. [])]
         @ (case enter_hook new of None \<Rightarrow> [] | Some f \<Rightarrow> [(Enter, \<lambda>_. [])])
         @ (case populateLayers_hook new of
              None \<Rightarrow> []
            | Some f \<Rightarrow> [(PopulateLayers, layerEntities (layerManager w4))])"
proof -
  define w1 where "w1 = call_if_present
              (case currentScene sm of None \<Rightarrow> None | Some cur \<Rightarrow> exit_hook cur) (sm_engine sm)"
  define w2 where "w2 = setEngine_hook new w1"
  define w3 where "w3 = w2\<lparr>layerManager := clearAll (layerManager w2)\<rparr>"
  define w4 where "w4 = call_if_present (enter_hook new) w3"
  define w5 where "w5 = call_if_present (populateLayers_hook new) w4"
  have empty: "\<forall>l. layerEntities (layerManager w3) l = []"
    by (simp add: w3_def clearAll_layers)
  have engine: "sm_engine (changeScene (Some new) sm) = w5"
    by (simp add: changeScene_def perform_def Let_def call_if_present_def
        w5_def w4_def w3_def w2_def w1_def split: option.splits)
  have current: "currentScene (changeScene (Some new) sm) = Some new"
    by (simp add: changeScene_def perform_def Let_def split: option.splits)
  have steps: "history (changeScene (Some new) sm) =
         history sm
         @ (case currentScene sm of
              None \<Rightarrow> []
            | Some cur \<Rightarrow>
                (case exit_hook cur of
                   None \<Rightarrow> []
                 | Some f \<Rightarrow> [(Exit, layerEntities (layerManager (sm_engine sm)))]))
         @ [(SetEngine, layerEntities (layerManager w1)),
            (Clear, layerEntities (layerManager w2)),
            (SetCurrent, \<lambda>_. [])]
         @ (case enter_hook new of None \<Rightarrow> [] | Some f \<Rightarrow> [(Enter, \<lambda>_. [])])
         @ (case populateLayers_hook new of
              None \<Rightarrow> []
            | Some f \<Rightarrow> [(PopulateLayers, layerEntities (layerManager w4))])"
    by (simp add: changeScene_def perform_def Let_def call_if_present_def clearAll_snapshot
        w4_def w3_def w2_def w1_def split: option.splits)
  show ?thesis
    unfolding Let_def
    using engine current empty steps
    unfolding w5_def w4_def w3_def w2_def w1_def by blast
qed

text \<open>
  The controller of the example holds the stage with its one shape and changes to the
  scene of the example: the steps are all six, and afterwards the layer of the shape is
  empty and the two buttons of state A are in theirs.
\<close>

lemma demo_changeScene_engine:
  "populateLayers (enter
     ((exit (sm_engine demo_controller))
        \<lparr>layerManager := clearAll (layerManager (exit (sm_engine demo_controller)))\<rparr>))
   = w \<Longrightarrow>
   layerEntities (layerManager w) SHAPES = [] \<and> layerEntities (layerManager w) UI_BUTTONS = [1, 2]"
  by (auto simp add: demo_controller_def demo_stage_def demo_shape_def demo_config_def
      demo_A_def demo_B_def demo_button_def demo_timer_def populateLayers_def enter_def exit_def
      loadFromConfig_def new_ConfigurableScene_def new_LayerManager_def setupState_def
      setupLayer_def setupEntity_def createEntity_def alloc_def createButton_def createShape_def
      truthy_def js_or_def str_or_def Let_def Map_clear_def addToLayer_def hasOwnProperty_def
      clearAll_def layer_keys_def)

theorem changeScene_order_witness:
  "map fst (history (changeScene (Some demo_hooks) demo_controller))
     = [Exit, SetEngine, Clear, SetCurrent, Enter, PopulateLayers]
   \<and> layerEntities (layerManager (sm_engine (changeScene (Some demo_hooks) demo_controller)))
       SHAPES = []
   \<and> layerEntities (layerManager (sm_engine (changeScene (Some demo_hooks) demo_controller)))
       UI_BUTTONS = [1, 2]"
proof -
  have hooks: "currentScene demo_controller = Some demo_hooks"
    "exit_hook demo_hooks = Some exit" "enter_hook demo_hooks = Some enter"
    "populateLayers_hook demo_hooks = Some populateLayers"
    "setEngine_hook demo_hooks = (\<lambda>w. w)"
    by (simp_all add: demo_controller_def demo_hooks_def)
  have all: "sm_engine (changeScene (Some demo_hooks) demo_controller) =
      populateLayers (enter
        ((exit (sm_engine demo_controller))
          \<lparr>layerManager := clearAll (layerManager (exit (sm_engine demo_controller)))\<rparr>))
    \<and> map fst (history (changeScene (Some demo_hooks) demo_controller))
       = map fst (history demo_controller)
         @ [Exit, SetEngine, Clear, SetCurrent, Enter, PopulateLayers]"
    using changeScene_order [of demo_controller demo_hooks]
    by (simp add: Let_def hooks call_if_present_def)
  have "history demo_controller = []" by (simp add: demo_controller_def)
  then show ?thesis
    using all demo_changeScene_engine by simp
qed

section \<open>Properties of the easing functions\<close>

text \<open>
  Claim C7. \<open>easeIn\<close> at 0.5 is 0.25, \<open>easeOut\<close> at 0.5 is 0.75, and any easing name
  other than linear, easeIn, easeOut and easeInOut gives back \<open>t\<close>, as linear does.
\<close>

theorem easing_values:
  "applyEasing 0.5 ''easeIn'' = 0.25
   \<and> applyEasing 0.5 ''easeOut'' = 0.75
   \<and> (easing_name \<notin> {''linear'', ''easeIn'', ''easeOut'', ''easeInOut''} \<longrightarrow>
        applyEasing t easing_name = t)"
  by (simp add: applyEasing_def)

theorem easing_values_witness:
  "''bounce'' \<notin> {''linear'', ''easeIn'', ''easeOut'', ''easeInOut''}
   \<and> applyEasing 0.3 ''bounce'' = 0.3"
  using easing_values [of "''bounce''" "0.3"] by simp

section \<open>Properties of the animation engine\<close>

subsection \<open>The animation table\<close>

lemma Map_get_set_same: "Map_get k (Map_set k v m) = Some v"
  by (induction k v m rule: Map_set.induct) (auto simp: Map_get_def)

lemma Map_keys_set:
  "map fst (Map_entries (Map_set k v m)) =
     (if k \<in> fst ` set (Map_entries m) then map fst (Map_entries m)
      else map fst (Map_entries m) @ [k])"
  by (induction k v m rule: Map_set.induct) (auto simp: image_iff)

lemma Map_distinct_set:
  "distinct (map fst (Map_entries m)) \<Longrightarrow> distinct (map fst (Map_entries (Map_set k v m)))"
  by (simp add: Map_keys_set)


lemma loop_length: "length (snd (updateAnimations_loop fl dt m hp)) = length hp"
proof (induction m arbitrary: hp)
  case Nil
  show ?case by simp
next
  case (Cons x m)
  show ?case
  proof (cases x)
    case None
    then show ?thesis using Cons by (simp add: split_beta)
  next
    case (Some p)
    then show ?thesis using Cons by (cases p) (simp add: split_beta)
  qed
qed

lemma loop_keys:
  "map fst (Map_entries (fst (updateAnimations_loop fl dt m hp))) = map fst (Map_entries m)"
proof (induction m arbitrary: hp)
  case Nil
  show ?case by simp
next
  case (Cons x m)
  show ?case
  proof (cases x)
    case None
    then show ?thesis using Cons by (simp add: split_beta)
  next
    case (Some p)
    then show ?thesis using Cons by (cases p) (simp add: split_beta)
  qed
qed

text \<open>A tick leaves alone every entity that has no animation.\<close>

lemma loop_other:
  "h \<notin> fst ` set (Map_entries m) \<Longrightarrow> snd (updateAnimations_loop fl dt m hp) ! h = hp ! h"
proof (induction m arbitrary: hp)
  case Nil
  show ?case by simp
next
  case (Cons x m)
  show ?case
  proof (cases x)
    case None
    then show ?thesis using Cons by (simp add: split_beta)
  next
    case (Some p)
    obtain h' anim where p: "p = (h', anim)" by (cases p)
    have ne: "h' \<noteq> h" and notin: "h \<notin> fst ` set (Map_entries m)"
      using Cons.prems Some p by auto
    show ?thesis
      using Cons.IH [OF notin] ne by (simp add: Some p split_beta)
  qed
qed

text \<open>
  A tick does to the animation of \<open>h\<close> and to \<open>h\<close> itself what the loop body does, whatever
  else is in the table.
\<close>

lemma loop_entry:
  assumes "distinct (map fst (Map_entries m))" and "Map_get h m = Some a" and "h < length hp"
  shows "Map_get h (fst (updateAnimations_loop fl dt m hp))
           = Some (fst (updateAnimation fl dt a (hp ! h)))
       \<and> snd (updateAnimations_loop fl dt m hp) ! h = snd (updateAnimation fl dt a (hp ! h))"
  using assms
proof (induction m arbitrary: hp)
  case Nil
  then show ?case by (simp add: Map_get_def)
next
  case (Cons x m)
  show ?case
  proof (cases x)
    case None
    then show ?thesis using Cons by (simp add: Map_get_def split_beta)
  next
    case (Some p)
    obtain h' anim where p: "p = (h', anim)" by (cases p)
    show ?thesis
    proof (cases "h' = h")
      case True
      have a: "anim = a" and notin: "h \<notin> fst ` set (Map_entries m)"
        using Cons.prems(1,2) Some p True by (auto simp: Map_get_def)
      show ?thesis
        using True Cons.prems(3) a loop_other [OF notin]
        by (simp add: Some p Map_get_def split_beta)
    next
      case False
      have d: "distinct (map fst (Map_entries m))" using Cons.prems(1) Some p by simp
      have g: "Map_get h m = Some a" using Cons.prems(2) False Some p by (simp add: Map_get_def)
      have l: "h < length (hp[h' := e'])" for e' using Cons.prems(3) by simp
      show ?thesis
        using Cons.IH [OF d g l] False by (simp add: Some p Map_get_def split_beta)
    qed
  qed
qed

lemma updateAnimations_entry:
  assumes "distinct (map fst (Map_entries (entityAnimations s)))"
    and "Map_get h (entityAnimations s) = Some a" and "h < length (heap s)"
  shows "Map_get h (entityAnimations (updateAnimations dt s))
           = Some (fst (updateAnimation (rounding s) dt a (heap s ! h)))"
    and "heap (updateAnimations dt s) ! h = snd (updateAnimation (rounding s) dt a (heap s ! h))"
    and "distinct (map fst (Map_entries (entityAnimations (updateAnimations dt s))))"
    and "length (heap (updateAnimations dt s)) = length (heap s)"
  using loop_entry [OF assms, of "rounding s" dt] assms(1)
    loop_keys [of "rounding s" dt "entityAnimations s" "heap s"]
    loop_length [of "rounding s" dt "entityAnimations s" "heap s"]
  by (simp_all add: updateAnimations_def split_beta)




lemma setupAnimation_entry:
  assumes "distinct (map fst (Map_entries (entityAnimations s)))" and "h < length (heap s)"
  shows "Map_get h (entityAnimations (setupAnimation h ac s))
           = Some (new_animation h (heap s ! h) ac)"
    and "distinct (map fst (Map_entries (entityAnimations (setupAnimation h ac s))))"
    and "h < length (heap (setupAnimation h ac s))"
  using assms by (simp_all add: setupAnimation_def Let_def Map_get_set_same Map_distinct_set)

text \<open>
  A property of one animation that each tick keeps holds after any run of ticks; when
  only the ticks of some kind keep it, after any run of such ticks.
\<close>

lemma animation_run:
  assumes step: "\<And>t a e dt fl. P dt \<Longrightarrow> I t a e \<Longrightarrow>
      I (t + dt) (fst (updateAnimation fl dt a e)) (snd (updateAnimation fl dt a e))"
    and ticks: "\<forall>dt \<in> set dts. P dt"
    and "distinct (map fst (Map_entries (entityAnimations s)))"
    and "Map_get h (entityAnimations s) = Some a0" and "h < length (heap s)"
    and "I 0 a0 (heap s ! h)"
  shows "\<exists>a. Map_get h (entityAnimations (foldl (\<lambda>s dt. updateAnimations dt s) s dts)) = Some a
     \<and> I (sum_list dts) a (heap (foldl (\<lambda>s dt. updateAnimations dt s) s dts) ! h)
     \<and> distinct (map fst (Map_entries
          (entityAnimations (foldl (\<lambda>s dt. updateAnimations dt s) s dts))))
     \<and> h < length (heap (foldl (\<lambda>s dt. updateAnimations dt s) s dts))"
  using ticks
proof (induction dts rule: rev_induct)
  case Nil
  show ?case using assms(3-6) by simp
next
  case (snoc dt dts)
  let ?s = "foldl (\<lambda>s dt. updateAnimations dt s) s dts"
  from snoc obtain a where a: "Map_get h (entityAnimations ?s) = Some a"
    and i: "I (sum_list dts) a (heap ?s ! h)"
    and d: "distinct (map fst (Map_entries (entityAnimations ?s)))"
    and l: "h < length (heap ?s)" by auto
  have p: "P dt" using snoc.prems by simp
  show ?case
    using updateAnimations_entry [OF d a l, of dt] step [OF p i, of "rounding ?s"] l
    by simp
qed

lemma completed_skipped: "completed a \<Longrightarrow> updateAnimation fl dt a e = (a, e)"
  by (simp add: updateAnimation_def)

lemma demo_stage_heap: "heap demo_stage = [createShape demo_shape]"
  by (simp add: demo_stage_def setupEntity_def createEntity_def alloc_def demo_shape_def
      new_ConfigurableScene_def truthy_def Let_def)

lemma demo_stage_animations: "entityAnimations demo_stage = []"
  by (simp add: demo_stage_def setupEntity_def createEntity_def alloc_def demo_shape_def
      new_ConfigurableScene_def truthy_def Let_def)

subsection \<open>fadeIn\<close>

lemma fadeIn_step:
  "fadeIn_inv t a e \<Longrightarrow>
     fadeIn_inv (t + dt) (fst (updateAnimation fl dt a e)) (snd (updateAnimation fl dt a e))"
  by (auto simp add: fadeIn_inv_def updateAnimation_def Let_def applyEasing_def min_def)

text \<open>Ticks that are not negative never take \<open>elapsed\<close> past the time they add up to.\<close>

lemma fadeIn_step_forward:
  assumes "0 \<le> dt" and "fadeIn_inv t a e \<and> elapsed a \<le> t"
  shows "fadeIn_inv (t + dt) (fst (updateAnimation fl dt a e)) (snd (updateAnimation fl dt a e))
     \<and> elapsed (fst (updateAnimation fl dt a e)) \<le> t + dt"
proof (cases "completed a")
  case True
  then show ?thesis using assms fadeIn_step [of t a e dt fl] by (simp add: completed_skipped)
next
  case False
  then have "elapsed a = t" using assms(2) by (simp add: fadeIn_inv_def)
  then have "elapsed (fst (updateAnimation fl dt a e)) = t + dt"
    using False by (simp add: updateAnimation_def Let_def)
  then show ?thesis using assms fadeIn_step [of t a e dt fl] by simp
qed

text \<open>
  Claim C5. An entity of opacity 1 is given a fadeIn animation of duration 1, delay 0
  and linear easing, and any ticks follow (the keys of the animation table are distinct,
  as in every Map and on every scene reached from a new one). The animation's \<open>elapsed\<close>
  is 0 at setup and the sum of the ticks until it completes. At every moment the
  animation is completed exactly when \<open>elapsed\<close> is 1 or more, and while \<open>elapsed\<close> is not
  negative the opacity is \<open>elapsed\<close>, capped at 1: 0 at 0, 0.5 at 0.5, and 1 from 1 on.
  So ticks that add up to 1 or more leave the animation completed and the opacity 1, and
  after ticks none of which is negative the opacity is their sum capped at 1, and the
  animation is completed exactly when the sum is 1 or more. A completed animation and
  its entity are left as they are by every later tick. Times and opacities are exact
  reals here.
\<close>

theorem fadeIn_linear:
  assumes "distinct (map fst (Map_entries (entityAnimations s0)))"
    and "h < length (heap s0)"
    and "e_alpha (heap s0 ! h) = 1"
    and "ac_type ac = ''fadeIn''" and "ac_duration ac = Some 1" and "ac_delay ac = Some 0"
    and "ac_easing ac = Some ''linear''"
  shows "let s = foldl (\<lambda>s dt. updateAnimations dt s) (setupAnimation h ac s0) dts in
     \<exists>a. Map_get h (entityAnimations s) = Some a
       \<and> (dts = [] \<longrightarrow> elapsed a = 0)
       \<and> (\<not> completed a \<longrightarrow> elapsed a = sum_list dts)
       \<and> (completed a \<longleftrightarrow> 1 \<le> elapsed a)
       \<and> (0 \<le> elapsed a \<longrightarrow> e_alpha (heap s ! h) = min (elapsed a) 1)
       \<and> (elapsed a = 0 \<longrightarrow> e_alpha (heap s ! h) = 0)
       \<and> (elapsed a = 0.5 \<longrightarrow> e_alpha (heap s ! h) = 0.5)
       \<and> (elapsed a \<ge> 1 \<longrightarrow> e_alpha (heap s ! h) = 1 \<and> completed a)
       \<and> (1 \<le> sum_list dts \<longrightarrow> completed a \<and> e_alpha (heap s ! h) = 1)
       \<and> ((\<forall>dt \<in> set dts. 0 \<le> dt) \<longrightarrow>
            (completed a \<longleftrightarrow> 1 \<le> sum_list dts)
            \<and> e_alpha (heap s ! h) = min (sum_list dts) 1)
       \<and> (completed a \<longrightarrow>
            (\<forall>dt. Map_get h (entityAnimations (updateAnimations dt s)) = Some a
                \<and> heap (updateAnimations dt s) ! h = heap s ! h))"
proof -
  let ?s1 = "setupAnimation h ac s0"
  let ?s = "foldl (\<lambda>s dt. updateAnimations dt s) ?s1 dts"
  let ?J = "\<lambda>t a e. fadeIn_inv t a e \<and> elapsed a \<le> t"
  note su = setupAnimation_entry [OF assms(1,2), of ac]
  have init: "fadeIn_inv 0 (new_animation h (heap s0 ! h) ac) (heap ?s1 ! h)"
    using assms(2-7)
    by (simp add: fadeIn_inv_def new_animation_def setupAnimation_def Let_def js_or_def str_or_def)
  have init': "?J 0 (new_animation h (heap s0 ! h) ac) (heap ?s1 ! h)"
    using init by (simp add: new_animation_def)
  have any: "\<forall>dt \<in> set dts. True" by simp
  have step: "fadeIn_inv (t + dt) (fst (updateAnimation fl dt a e)) (snd (updateAnimation fl dt a e))"
    if "True" and "fadeIn_inv t a e" for t a e dt fl
    using fadeIn_step that(2) .
  from animation_run [where P = "\<lambda>_. True" and I = fadeIn_inv and dts = dts,
      OF step any su(2) su(1) su(3) init]
  obtain a where a: "Map_get h (entityAnimations ?s) = Some a"
    and i: "fadeIn_inv (sum_list dts) a (heap ?s ! h)"
    and d: "distinct (map fst (Map_entries (entityAnimations ?s)))"
    and l: "h < length (heap ?s)" by blast
  have first: "dts = [] \<longrightarrow> elapsed a = 0"
    using a su(1) by (auto simp add: new_animation_def)
  have skip: "completed a \<longrightarrow>
            (\<forall>dt. Map_get h (entityAnimations (updateAnimations dt ?s)) = Some a
                \<and> heap (updateAnimations dt ?s) ! h = heap ?s ! h)"
    using updateAnimations_entry(1,2) [OF d a l] by (simp add: completed_skipped)
  have run: "\<not> completed a \<longrightarrow> elapsed a = sum_list dts"
    and done_iff: "completed a \<longleftrightarrow> 1 \<le> elapsed a"
    and level: "0 \<le> elapsed a \<longrightarrow> e_alpha (heap ?s ! h) = min (elapsed a) 1"
    using i by (simp_all add: fadeIn_inv_def)
  have vals: "(elapsed a = 0 \<longrightarrow> e_alpha (heap ?s ! h) = 0)
       \<and> (elapsed a = 0.5 \<longrightarrow> e_alpha (heap ?s ! h) = 0.5)
       \<and> (elapsed a \<ge> 1 \<longrightarrow> e_alpha (heap ?s ! h) = 1 \<and> completed a)"
    using level done_iff by (auto simp add: min_def)
  have total: "1 \<le> sum_list dts \<longrightarrow> completed a \<and> e_alpha (heap ?s ! h) = 1"
    using run done_iff level by (auto simp add: min_def)
  have forward: "(\<forall>dt \<in> set dts. 0 \<le> dt) \<longrightarrow>
            (completed a \<longleftrightarrow> 1 \<le> sum_list dts)
            \<and> e_alpha (heap ?s ! h) = min (sum_list dts) 1"
  proof
    assume nn: "\<forall>dt \<in> set dts. 0 \<le> dt"
    from animation_run [where P = "\<lambda>dt. 0 \<le> dt" and I = ?J and dts = dts,
        OF fadeIn_step_forward nn su(2) su(1) su(3) init']
    obtain b where b: "Map_get h (entityAnimations ?s) = Some b"
      and le: "elapsed b \<le> sum_list dts" by blast
    have le': "elapsed a \<le> sum_list dts" using a b le by simp
    have pos: "0 \<le> sum_list dts" using nn by (simp add: sum_list_nonneg)
    show "(completed a \<longleftrightarrow> 1 \<le> sum_list dts)
            \<and> e_alpha (heap ?s ! h) = min (sum_list dts) 1"
      using run done_iff level le' pos by (cases "completed a") (auto simp add: min_def)
  qed
  show ?thesis
    unfolding Let_def using a first skip run done_iff level vals total forward by blast
qed

text \<open>
  On the stage: the opacity is 0 at setup, 0.5 after two ticks of a quarter of a second, and
  1, with the animation completed, after two ticks of half a second.
\<close>

theorem fadeIn_linear_witness:
  "e_alpha (heap (setupAnimation 0 demo_fadeIn demo_stage) ! 0) = 0
   \<and> e_alpha (heap (foldl (\<lambda>s dt. updateAnimations dt s)
        (setupAnimation 0 demo_fadeIn demo_stage) [1/4, 1/4]) ! 0) = 1/2
   \<and> e_alpha (heap (foldl (\<lambda>s dt. updateAnimations dt s)
        (setupAnimation 0 demo_fadeIn demo_stage) [1/2, 1/2]) ! 0) = 1
   \<and> map_option completed (Map_get 0 (entityAnimations (foldl (\<lambda>s dt. updateAnimations dt s)
        (setupAnimation 0 demo_fadeIn demo_stage) [1/2, 1/2]))) = Some True"
proof -
  have h1: "distinct (map fst (Map_entries (entityAnimations demo_stage)))"
    by (simp add: demo_stage_animations)
  have h2: "0 < length (heap demo_stage)" by (simp add: demo_stage_heap)
  have h3: "e_alpha (heap demo_stage ! 0) = 1"
    by (simp add: demo_stage_heap createShape_def demo_shape_def)
  have h4: "ac_type demo_fadeIn = ''fadeIn''" "ac_duration demo_fadeIn = Some 1"
    "ac_delay demo_fadeIn = Some 0" "ac_easing demo_fadeIn = Some ''linear''"
    by (simp_all add: demo_fadeIn_def)
  have start: "e_alpha (heap (setupAnimation 0 demo_fadeIn demo_stage) ! 0) = 0"
    using fadeIn_linear [OF h1 h2 h3 h4, of "[]"] by (auto simp add: Let_def)
  have half: "e_alpha (heap (foldl (\<lambda>s dt. updateAnimations dt s)
        (setupAnimation 0 demo_fadeIn demo_stage) [1/4, 1/4]) ! 0) = 1/2"
    using fadeIn_linear [OF h1 h2 h3 h4, of "[1/4, 1/4]"]
    by (auto simp add: Let_def)
  have full: "e_alpha (heap (foldl (\<lambda>s dt. updateAnimations dt s)
        (setupAnimation 0 demo_fadeIn demo_stage) [1/2, 1/2]) ! 0) = 1
   \<and> map_option completed (Map_get 0 (entityAnimations (foldl (\<lambda>s dt. updateAnimations dt s)
        (setupAnimation 0 demo_fadeIn demo_stage) [1/2, 1/2]))) = Some True"
    using fadeIn_linear [OF h1 h2 h3 h4, of "[1/2, 1/2]"]
    by (auto simp add: Let_def)
  show ?thesis using start half full by blast
qed

subsection \<open>slideIn\<close>









subsection \<open>pulse\<close>

lemma pulse_tick:
  assumes "pulse_inv sx sy t a e"
  shows "pulse_inv sx sy (t + dt) (fst (updateAnimation fl dt a e)) (snd (updateAnimation fl dt a e))"
    and "delay a \<le> t + dt \<longrightarrow>
          e_scaleX (snd (updateAnimation fl dt a e))
            = Some (sx * (1 + 0.1 * sin (4 * (t + dt - delay a))))
        \<and> e_scaleY (snd (updateAnimation fl dt a e))
            = Some (sy * (1 + 0.1 * sin (4 * (t + dt - delay a))))"
    and "delay (fst (updateAnimation fl dt a e)) = delay a"
  using assms
  by (simp_all add: pulse_inv_def updateAnimation_def Let_def mult.commute)

text \<open>
  Claim C8. An entity is given a pulse animation, and any ticks follow (the keys of the
  animation table are distinct, as in every Map and on every scene reached from a new
  one). The animation is
  not completed at setup nor after any tick, its \<open>elapsed\<close> is the sum of the ticks, and
  every tick that leaves \<open>elapsed\<close> at the delay or more sets the entity's scaleX and
  scaleY to the initial scale (the entity's scale at setup, 1 when it has none) times
  \<open>1 + 0.1 sin (4 (elapsed - delay))\<close>. The sine is the real one: rounding is not
  modelled.
\<close>

theorem pulse_never_completes:
  assumes "distinct (map fst (Map_entries (entityAnimations s0)))"
    and "h < length (heap s0)"
    and "ac_type ac = ''pulse''"
  shows "map_option completed (Map_get h (entityAnimations (setupAnimation h ac s0))) = Some False
    \<and> (let s = foldl (\<lambda>s dt. updateAnimations dt s) (setupAnimation h ac s0) dts;
             s' = updateAnimations dt s
         in \<exists>a. Map_get h (entityAnimations s') = Some a
              \<and> \<not> completed a
              \<and> elapsed a = sum_list dts + dt
              \<and> delay a = js_or (ac_delay ac) 0
              \<and> initialScaleX a = js_or (e_scaleX (heap s0 ! h)) 1
              \<and> initialScaleY a = js_or (e_scaleY (heap s0 ! h)) 1
              \<and> (elapsed a \<ge> delay a \<longrightarrow>
                   e_scaleX (heap s' ! h)
                     = Some (initialScaleX a * (1 + 0.1 * sin (4 * (elapsed a - delay a))))
                 \<and> e_scaleY (heap s' ! h)
                     = Some (initialScaleY a * (1 + 0.1 * sin (4 * (elapsed a - delay a))))))"
proof -
  let ?s1 = "setupAnimation h ac s0"
  let ?s = "foldl (\<lambda>s dt. updateAnimations dt s) ?s1 dts"
  let ?sx = "js_or (e_scaleX (heap s0 ! h)) 1"
  let ?sy = "js_or (e_scaleY (heap s0 ! h)) 1"
  let ?I = "\<lambda>t a e. pulse_inv ?sx ?sy t a e \<and> delay a = js_or (ac_delay ac) 0"
  note su = setupAnimation_entry [OF assms(1,2), of ac]
  have fresh: "map_option completed (Map_get h (entityAnimations ?s1)) = Some False"
    by (simp add: su(1) new_animation_def)
  have init: "?I 0 (new_animation h (heap s0 ! h) ac) (heap ?s1 ! h)"
    using assms(3) by (simp add: pulse_inv_def new_animation_def)
  have any: "\<forall>dt \<in> set dts. True" by simp
  have step: "?I (t + dt) (fst (updateAnimation fl dt a e)) (snd (updateAnimation fl dt a e))"
    if "True" and "?I t a e" for t a e dt fl
    using pulse_tick(1,3) [where dt = dt and fl = fl, OF conjunct1 [OF that(2)]] that(2) by simp
  from animation_run [where P = "\<lambda>_. True" and I = ?I and dts = dts,
      OF step any su(2) su(1) su(3) init]
  obtain a where a: "Map_get h (entityAnimations ?s) = Some a"
    and i: "pulse_inv ?sx ?sy (sum_list dts) a (heap ?s ! h)"
    and dl: "delay a = js_or (ac_delay ac) 0"
    and d: "distinct (map fst (Map_entries (entityAnimations ?s)))"
    and l: "h < length (heap ?s)" by blast
  let ?a' = "fst (updateAnimation (rounding ?s) dt a (heap ?s ! h))"
  have i': "pulse_inv ?sx ?sy (sum_list dts + dt) ?a'
      (snd (updateAnimation (rounding ?s) dt a (heap ?s ! h)))"
    using pulse_tick(1) [OF i] .
  have "Map_get h (entityAnimations (updateAnimations dt ?s)) = Some ?a'
      \<and> \<not> completed ?a' \<and> elapsed ?a' = sum_list dts + dt
      \<and> delay ?a' = js_or (ac_delay ac) 0
      \<and> initialScaleX ?a' = ?sx \<and> initialScaleY ?a' = ?sy
      \<and> (elapsed ?a' \<ge> delay ?a' \<longrightarrow>
            e_scaleX (heap (updateAnimations dt ?s) ! h)
              = Some (initialScaleX ?a' * (1 + 0.1 * sin (4 * (elapsed ?a' - delay ?a'))))
          \<and> e_scaleY (heap (updateAnimations dt ?s) ! h)
              = Some (initialScaleY ?a' * (1 + 0.1 * sin (4 * (elapsed ?a' - delay ?a')))))"
    using updateAnimations_entry(1,2) [OF d a l, of dt] pulse_tick(2,3) [OF i, where dt = dt and fl = "rounding ?s"] i' dl
    by (simp add: pulse_inv_def)
  then show ?thesis
    unfolding Let_def using fresh by blast
qed

theorem pulse_never_completes_witness:
  "map_option completed (Map_get 0 (entityAnimations
      (updateAnimations 1 (foldl (\<lambda>s dt. updateAnimations dt s)
         (setupAnimation 0 demo_pulse demo_stage) [1, 1])))) = Some False
   \<and> e_scaleX (heap (updateAnimations 1 (foldl (\<lambda>s dt. updateAnimations dt s)
         (setupAnimation 0 demo_pulse demo_stage) [1, 1])) ! 0)
       = Some (1 + 0.1 * sin 8)"
proof -
  have h1: "distinct (map fst (Map_entries (entityAnimations demo_stage)))"
    by (simp add: demo_stage_animations)
  have h2: "0 < length (heap demo_stage)" by (simp add: demo_stage_heap)
  have h3: "ac_type demo_pulse = ''pulse''" by (simp add: demo_pulse_def)
  have sx: "js_or (e_scaleX (heap demo_stage ! 0)) 1 = 1"
    by (simp add: demo_stage_heap createShape_def demo_shape_def js_or_def)
  have dl: "js_or (ac_delay demo_pulse) 0 = 1" by (simp add: demo_pulse_def js_or_def)
  show ?thesis
    using pulse_never_completes [OF h1 h2 h3, of "[1, 1]" 1] sx dl
    unfolding Let_def by fastforce
qed

section \<open>Properties of the state machine\<close>

lemma findIndex_None: "findIndex P xs = None \<longleftrightarrow> (\<forall>x \<in> set xs. \<not> P x)"
  by (induction xs) auto

lemma demo_scene_fields:
  "states demo_scene = [demo_A, demo_B]"
  "currentStateIndex demo_scene = 0"
  "stateTimer demo_scene = 0"
  "entities demo_scene = []"
  "checkClick_calls demo_scene = []"
  "heap demo_scene = []"
  by (simp_all add: demo_scene_def enter_def loadFromConfig_def demo_config_def
      new_ConfigurableScene_def Let_def)

lemmas scene_eval =
  setupState_def setupLayer_def setupEntity_def createEntity_def alloc_def createButton_def
  createText_def truthy_def js_or_def Let_def Map_clear_def demo_A_def demo_B_def demo_button_def
  demo_text_def demo_scene_def enter_def loadFromConfig_def demo_config_def
  new_ConfigurableScene_def addToLayer_def hasOwnProperty_def clearAll_def layer_keys_def
  new_LayerManager_def str_or_def demo_timer_def

text \<open>
  Claim C9. When no state of the scene has the requested name, \<open>_switchToState\<close> writes
  a warning to the console and leaves every other field of the scene as it was: the
  state index, the state name, the timer, the tracked entities, the animations, the
  layers and the entity store; no state is set up. The same holds for a transition whose
  \<open>nextState\<close> is that name (and that names no scene) and for a switchState action
  with that target, which logs the action first.
\<close>

theorem unknown_state_ignored:
  assumes "stateName \<notin> st_name ` set (states s)"
  shows "switchToState stateName s =
           s\<lparr>console := console s
                @ [Warn (''['' @ sceneName s @ ''] State not found: '' @ stateName)]\<rparr>
    \<and> (truthy (nextScene tr) = None \<and> truthy (nextState tr) = Some stateName \<longrightarrow>
         handleTransition tr s =
           s\<lparr>console := console s
                @ [Warn (''['' @ sceneName s @ ''] State not found: '' @ stateName)]\<rparr>)
    \<and> (act_action a = ''switchState'' \<and> truthy (act_target a) = Some stateName \<longrightarrow>
         handleButtonAction a s =
           s\<lparr>console := console s
                @ [Log (''['' @ sceneName s @ ''] Button action:''),
                   Warn (''['' @ sceneName s @ ''] State not found: '' @ stateName)]\<rparr>)"
proof -
  have none: "findIndex (\<lambda>st. st_name st = stateName) (states s') = None"
    if "states s' = states s" for s' :: scene
    using assms that by (auto simp add: findIndex_None)
  have sw: "switchToState stateName s' =
           s'\<lparr>console := console s'
                @ [Warn (''['' @ sceneName s' @ ''] State not found: '' @ stateName)]\<rparr>"
    if "states s' = states s" for s' :: scene
    using none [OF that] by (simp add: switchToState_def)
  show ?thesis
    by (simp add: sw handleTransition_def handleButtonAction_def Let_def)
qed

theorem unknown_state_ignored_witness:
  "''C'' \<notin> st_name ` set (states demo_scene)
   \<and> switchToState ''C'' demo_scene =
       demo_scene\<lparr>console := console demo_scene
                @ [Warn (''['' @ sceneName demo_scene @ ''] State not found: '' @ ''C'')]\<rparr>
   \<and> handleTransition (demo_timer\<lparr>nextState := Some ''C''\<rparr>) demo_scene =
       demo_scene\<lparr>console := console demo_scene
                @ [Warn (''['' @ sceneName demo_scene @ ''] State not found: '' @ ''C'')]\<rparr>"
proof -
  have h: "''C'' \<notin> st_name ` set (states demo_scene)"
    by (simp add: demo_scene_fields demo_A_def demo_B_def)
  have t: "truthy (nextScene (demo_timer\<lparr>nextState := Some ''C''\<rparr>)) = None
      \<and> truthy (nextState (demo_timer\<lparr>nextState := Some ''C''\<rparr>)) = Some ''C''"
    by (simp add: demo_timer_def truthy_def)
  show ?thesis
    using unknown_state_ignored [OF h, of "demo_timer\<lparr>nextState := Some ''C''\<rparr>"] h t by blast
qed

lemma updateAnimations_frame:
  "states (updateAnimations dt s) = states s"
  "currentStateIndex (updateAnimations dt s) = currentStateIndex s"
  "currentStateName (updateAnimations dt s) = currentStateName s"
  "stateTimer (updateAnimations dt s) = stateTimer s"
  "console (updateAnimations dt s) = console s"
  "switchScene_calls (updateAnimations dt s) = switchScene_calls s"
  "checkClick_calls (updateAnimations dt s) = checkClick_calls s"
  "layerManager (updateAnimations dt s) = layerManager s"
  "entities (updateAnimations dt s) = entities s"
  by (simp_all add: updateAnimations_def split_beta)

text \<open>
  One tick of a state with a timer transition: the timer is advanced and the animations
  are run, a press is dispatched, and then the transition is performed exactly when the
  timer is at the duration or beyond.
\<close>

lemma update_timer:
  assumes "currentStateIndex s < length (states s)"
    and "transition (states s ! currentStateIndex s) = Some tr"
    and "tr_type tr = ''timer''" and "tr_duration tr = Some d"
  shows "update fuel hit m dt s =
     map_option (\<lambda>s3. if d \<le> stateTimer s3 then handleTransition tr s3 else s3)
       (if pressed m
        then handleButtonClicks fuel hit m (updateAnimations dt (s\<lparr>stateTimer := stateTimer s + dt\<rparr>))
        else Some (updateAnimations dt (s\<lparr>stateTimer := stateTimer s + dt\<rparr>)))"
proof -
  have ne: "states s \<noteq> []" using assms(1) by auto
  show ?thesis
    using assms ne by (simp add: update_def Let_def split: option.splits)
qed

text \<open>
  Claim C4. The active state declares a timer transition of duration \<open>d\<close>. Over any
  ticks without a pointer press that each leave the accumulated \<open>stateTimer\<close> below \<open>d\<close>,
  no transition happens: the state, the console and the scene requests are as before
  and \<open>stateTimer\<close> has grown by the sum of the ticks. The next tick adds its \<open>dt\<close> first
  and then compares: without a press it performs the transition if \<open>stateTimer + dt\<close> is
  \<open>d\<close> or more and does not if it is less; with a press, the press is dispatched first
  and the comparison reads the timer after it.
\<close>

theorem timer_transition:
  assumes "currentStateIndex s < length (states s)"
    and "transition (states s ! currentStateIndex s) = Some tr"
    and "tr_type tr = ''timer''" and "tr_duration tr = Some d"
    and "\<not> pressed m"
    and "\<forall>k < length dts. stateTimer s + sum_list (take (Suc k) dts) < d"
  shows "\<exists>s1. run_calls hit (map (Update fuel m) dts) s = Some s1
      \<and> states s1 = states s
      \<and> currentStateIndex s1 = currentStateIndex s
      \<and> currentStateName s1 = currentStateName s
      \<and> stateTimer s1 = stateTimer s + sum_list dts
      \<and> console s1 = console s
      \<and> switchScene_calls s1 = switchScene_calls s
      \<and> layerManager s1 = layerManager s
      \<and> entities s1 = entities s
      \<and> (d \<le> stateTimer s1 + dt \<longrightarrow>
           update fuel hit m dt s1 =
             Some (handleTransition tr (updateAnimations dt (s1\<lparr>stateTimer := stateTimer s1 + dt\<rparr>))))
      \<and> (stateTimer s1 + dt < d \<longrightarrow>
           update fuel hit m dt s1 =
             Some (updateAnimations dt (s1\<lparr>stateTimer := stateTimer s1 + dt\<rparr>)))
      \<and> update fuel hit m' dt s1 =
           map_option (\<lambda>s3. if d \<le> stateTimer s3 then handleTransition tr s3 else s3)
             (if pressed m'
              then handleButtonClicks fuel hit m'
                     (updateAnimations dt (s1\<lparr>stateTimer := stateTimer s1 + dt\<rparr>))
              else Some (updateAnimations dt (s1\<lparr>stateTimer := stateTimer s1 + dt\<rparr>)))"
  using assms
proof (induction dts arbitrary: s)
  case Nil
  show ?case
    using update_timer [OF Nil(1-4), of fuel hit m dt] update_timer [OF Nil(1-4), of fuel hit m' dt]
      Nil(5)
    by (simp add: updateAnimations_frame)
next
  case (Cons x dts)
  let ?s = "updateAnimations x (s\<lparr>stateTimer := stateTimer s + x\<rparr>)"
  have lt: "stateTimer s + x < d" using Cons.prems(6) by auto
  have u: "update fuel hit m x s = Some ?s"
    using update_timer [OF Cons.prems(1-4), of fuel hit m x] lt Cons.prems(5)
    by (simp add: updateAnimations_frame)
  have rest: "\<forall>k < length dts. stateTimer ?s + sum_list (take (Suc k) dts) < d"
  proof (intro allI impI)
    fix k assume "k < length dts"
    then have "stateTimer s + sum_list (take (Suc (Suc k)) (x # dts)) < d"
      using Cons.prems(6) by (metis Suc_less_eq length_Cons)
    then show "stateTimer ?s + sum_list (take (Suc k) dts) < d"
      by (simp add: updateAnimations_frame add.assoc)
  qed
  have p: "currentStateIndex ?s < length (states ?s)"
      "transition (states ?s ! currentStateIndex ?s) = Some tr"
    using Cons.prems(1,2) by (simp_all add: updateAnimations_frame)
  from Cons.IH [OF p Cons.prems(3,4,5) rest]
  show ?case
    using u by (simp add: updateAnimations_frame add.assoc)
qed

lemma demo_timer_run:
  "map_option currentStateName
     (run_calls (\<lambda>e px py. True) (map (Update 0 idle) [1, 9/10]) demo_scene) = Some (Some ''A'')
   \<and> map_option currentStateName
     (run_calls (\<lambda>e px py. True) (map (Update 0 idle) [1, 9/10, 1/10]) demo_scene)
       = Some (Some ''B'')"
  by (simp add: scene_eval update_def updateAnimations_def idle_def handleTransition_def
      switchToState_def)

theorem timer_transition_witness:
  "(\<exists>s1. run_calls (\<lambda>e px py. True) (map (Update 0 idle) [1, 9/10]) demo_scene = Some s1
      \<and> currentStateIndex s1 = 0
      \<and> stateTimer s1 = 19/10
      \<and> update 0 (\<lambda>e px py. True) idle (1/10) s1 =
             Some (handleTransition demo_timer
                (updateAnimations (1/10) (s1\<lparr>stateTimer := stateTimer s1 + 1/10\<rparr>)))
      \<and> update 0 (\<lambda>e px py. True) idle (1/20) s1 =
             Some (updateAnimations (1/20) (s1\<lparr>stateTimer := stateTimer s1 + 1/20\<rparr>)))
   \<and> map_option currentStateName
        (run_calls (\<lambda>e px py. True) (map (Update 0 idle) [1, 9/10]) demo_scene)
          = Some (Some ''A'')
   \<and> map_option currentStateName
        (run_calls (\<lambda>e px py. True) (map (Update 0 idle) [1, 9/10, 1/10]) demo_scene)
          = Some (Some ''B'')"
proof -
  have h1: "currentStateIndex demo_scene < length (states demo_scene)"
    by (simp add: demo_scene_fields)
  have h2: "transition (states demo_scene ! currentStateIndex demo_scene) = Some demo_timer"
    by (simp add: demo_scene_fields demo_A_def)
  have h3: "tr_type demo_timer = ''timer''" "tr_duration demo_timer = Some 2"
    by (simp_all add: demo_timer_def)
  have h4: "\<not> pressed idle" by (simp add: idle_def)
  have h5: "\<forall>k < length [1, 9/10 :: real].
      stateTimer demo_scene + sum_list (take (Suc k) [1, 9/10]) < 2"
    by (simp add: demo_scene_fields less_Suc_eq)
  from timer_transition [OF h1 h2 h3 h4 h5, of "\<lambda>e px py. True" 0 "1/10" idle]
    timer_transition [OF h1 h2 h3 h4 h5, of "\<lambda>e px py. True" 0 "1/20" idle]
  have "\<exists>s1. run_calls (\<lambda>e px py. True) (map (Update 0 idle) [1, 9/10]) demo_scene = Some s1
      \<and> currentStateIndex s1 = 0
      \<and> stateTimer s1 = 19/10
      \<and> update 0 (\<lambda>e px py. True) idle (1/10) s1 =
             Some (handleTransition demo_timer
                (updateAnimations (1/10) (s1\<lparr>stateTimer := stateTimer s1 + 1/10\<rparr>)))
      \<and> update 0 (\<lambda>e px py. True) idle (1/20) s1 =
             Some (updateAnimations (1/20) (s1\<lparr>stateTimer := stateTimer s1 + 1/20\<rparr>))"
    by (auto simp add: demo_scene_fields)
  then show ?thesis using demo_timer_run by blast
qed

section \<open>Properties of click dispatch\<close>



lemma setupAnimation_frame:
  "length (heap (setupAnimation h ac s)) = length (heap s)"
  "entities (setupAnimation h ac s) = entities s"
  "checkClick_calls (setupAnimation h ac s) = checkClick_calls s"
  by (simp_all add: setupAnimation_def Let_def)




subsection \<open>Every operation keeps an untracked entity untracked and untested\<close>















subsection \<open>A new entity without an id starts untracked\<close>






subsection \<open>Scenes reached from a new one\<close>

text \<open>
  \<open>sound s\<close>: the tracking map and the click record name existing objects only, and the
  keys of the animation table are distinct. Every operation keeps it.
\<close>

lemma sound_frame:
  assumes "sound s"
    and "length (heap s) \<le> length (heap s')"
    and "set (checkClick_calls s') \<subseteq> set (checkClick_calls s)"
    and "snd ` set (Map_entries (entities s')) \<subseteq> snd ` set (Map_entries (entities s))"
    and "distinct (map fst (Map_entries (entityAnimations s')))"
  shows "sound s'"
  using assms by (fastforce simp add: sound_def known_handles_def)

lemma setupAnimation_sound: "sound s \<Longrightarrow> sound (setupAnimation h ac s)"
  by (rule sound_frame [where s = s])
    (simp_all add: setupAnimation_frame, simp add: setupAnimation_def Let_def Map_distinct_set sound_def)

















subsection \<open>Entities without an id\<close>






end
